theory Spec2Isabelle
  imports Main "HOL-Library.Word"
begin

unbundle bit_operations_syntax

section \<open>The Node.js runtime the vault runs on\<close>

text \<open>
  The vault is three JavaScript classes (\<open>KeyManager\<close>, \<open>EncryptionService\<close>,
  \<open>DataStore\<close>) and the \<open>VaultService\<close> that binds them. Their methods mutate the
  fields of \<open>this\<close> and call into Node's \<open>crypto\<close>, \<open>Buffer\<close> and \<open>JSON\<close>. In
  the embedding every method takes the object's fields and the runtime state and returns
  them updated; a \<open>throw\<close> is the \<open>Inl\<close> of a sum whose error is the message of
  the JavaScript \<open>Error\<close>, because the source itself tells errors apart by their message.
  A method that throws half-way returns the fields as they are at the throw: JavaScript
  does not undo the assignments made before it.
\<close>

type_synonym bytes = "8 word list"

text \<open>
  Byte containers live on a heap and are held by reference, so that overwriting a field
  (dropping a reference) and \<open>fill(0)\<close> (overwriting the bytes) are different events.
  Node has two kinds that matter here: \<open>Buffer.from\<close> makes a \<open>Buffer\<close>, and
  \<open>crypto.hkdfSync\<close> returns an \<open>ArrayBuffer\<close> (Node's API documentation:
  ``Returns: ArrayBuffer''), for which \<open>Buffer.isBuffer\<close> is false. Only the containers
  of key material are put on the heap; salts, nonces and ciphertexts are plain values.
\<close>

datatype jsobj = Buffer bytes | ArrayBuffer bytes

type_synonym ref = nat

record runtime =
  heap :: "jsobj list"
  draws :: nat
  clock :: nat
  timers :: "nat list"
  timers_made :: nat

text \<open>
  The library functions the source calls are parameters of the model. An \<open>Inl\<close> is the
  message of the exception the call throws. \<open>gcm_encrypt key iv plaintext\<close> stands for
  \<open>createCipheriv('aes-256-gcm', key, iv)\<close>, \<open>update\<close>, \<open>final\<close> and \<open>getAuthTag\<close>
  and returns ciphertext and tag; \<open>gcm_decrypt key iv ciphertext tag\<close> stands for
  \<open>createDecipheriv\<close>, \<open>setAuthTag\<close>, \<open>update\<close> and \<open>final\<close>.
  \<open>JSON_stringify\<close> is \<open>Inl\<close> also where JavaScript returns \<open>undefined\<close>, since
  the \<open>Buffer.from\<close> that follows throws on it inside the same \<open>try\<close>.
  \<open>randomBytes\<close> and \<open>randomUUID\<close> are read at the number of draws made so far.
\<close>

record 'j node =
  randomBytes :: "nat \<Rightarrow> nat \<Rightarrow> bytes"
  randomUUID :: "nat \<Rightarrow> string"
  hkdfSync :: "bytes \<Rightarrow> bytes \<Rightarrow> bytes \<Rightarrow> nat \<Rightarrow> string + bytes"
  gcm_encrypt :: "bytes \<Rightarrow> bytes \<Rightarrow> bytes \<Rightarrow> string + (bytes \<times> bytes)"
  gcm_decrypt :: "bytes \<Rightarrow> bytes \<Rightarrow> bytes \<Rightarrow> bytes \<Rightarrow> string + bytes"
  JSON_stringify :: "'j \<Rightarrow> string + string"
  JSON_parse :: "string \<Rightarrow> string + 'j"
  utf8_encode :: "string \<Rightarrow> bytes"
  utf8_decode :: "bytes \<Rightarrow> string"
  base64_encode :: "bytes \<Rightarrow> string"
  base64_decode :: "string \<Rightarrow> bytes"

definition alloc :: "jsobj \<Rightarrow> runtime \<Rightarrow> ref \<times> runtime" where
  "alloc obj rt = (length (heap rt), rt\<lparr>heap := heap rt @ [obj]\<rparr>)"

fun obj_bytes :: "jsobj \<Rightarrow> bytes" where
  "obj_bytes (Buffer bs) = bs"
| "obj_bytes (ArrayBuffer bs) = bs"

fun isBuffer :: "jsobj \<Rightarrow> bool" where
  "isBuffer (Buffer bs) = True"
| "isBuffer (ArrayBuffer bs) = False"

definition deref :: "runtime \<Rightarrow> ref \<Rightarrow> jsobj option" where
  "deref rt r = (if r < length (heap rt) then Some (heap rt ! r) else None)"

text \<open>The bytes behind a reference. Every reference the vault holds was allocated, so the
  empty result for a dangling one is never read.\<close>

definition bytes_at :: "runtime \<Rightarrow> ref \<Rightarrow> bytes" where
  "bytes_at rt r = (case deref rt r of Some obj \<Rightarrow> obj_bytes obj | None \<Rightarrow> [])"

definition draw_bytes :: "'j node \<Rightarrow> nat \<Rightarrow> runtime \<Rightarrow> bytes \<times> runtime" where
  "draw_bytes N n rt = (randomBytes N (draws rt) n, rt\<lparr>draws := Suc (draws rt)\<rparr>)"

definition draw_uuid :: "'j node \<Rightarrow> runtime \<Rightarrow> string \<times> runtime" where
  "draw_uuid N rt = (randomUUID N (draws rt), rt\<lparr>draws := Suc (draws rt)\<rparr>)"

text \<open>\<open>buf.fill(0)\<close>: every byte of the container becomes zero, in place.\<close>

definition fill0 :: "ref \<Rightarrow> runtime \<Rightarrow> runtime" where
  "fill0 r rt =
     (case deref rt r of
        Some (Buffer bs) \<Rightarrow> rt\<lparr>heap := (heap rt)[r := Buffer (replicate (length bs) 0)]\<rparr>
      | Some (ArrayBuffer bs) \<Rightarrow> rt\<lparr>heap := (heap rt)[r := ArrayBuffer (replicate (length bs) 0)]\<rparr>
      | None \<Rightarrow> rt)"

subsection \<open>Strings\<close>

text \<open>A number inside a template literal: its decimal digits. Key versions are JavaScript
  numbers that start at 1 and grow by \<open>++\<close>; they are modelled as natural numbers, which
  is exact below \<open>2 ^ 53\<close> rotations.\<close>

definition digit_char :: "nat \<Rightarrow> char" where
  "digit_char d = char_of (48 + d)"

function show_nat :: "nat \<Rightarrow> string" where
  "show_nat n = (if n < 10 then [digit_char n] else show_nat (n div 10) @ [digit_char (n mod 10)])"
  by pat_completeness auto
termination
  by (relation "measure (\<lambda>n. n)") auto

declare show_nat.simps [simp del]

text \<open>\<open>${x}\<close> for a field that holds a number or \<open>null\<close>.\<close>

fun show_nullable :: "nat option \<Rightarrow> string" where
  "show_nullable None = ''null''"
| "show_nullable (Some n) = show_nat n"

text \<open>\<open>Buffer.from(str)\<close> for a string of ASCII characters.\<close>

definition ascii_bytes :: "string \<Rightarrow> bytes" where
  "ascii_bytes s = map (\<lambda>c. of_nat (of_char c)) s"

text \<open>\<open>String.prototype.includes\<close>.\<close>

fun starts_with :: "string \<Rightarrow> string \<Rightarrow> bool" where
  "starts_with s [] = True"
| "starts_with [] (c # cs) = False"
| "starts_with (x # xs) (c # cs) = (x = c \<and> starts_with xs cs)"

fun str_includes :: "string \<Rightarrow> string \<Rightarrow> bool" where
  "str_includes [] sub = (sub = [])"
| "str_includes (x # xs) sub = (starts_with (x # xs) sub \<or> str_includes xs sub)"

text \<open>\<open>Buffer.from(str, 'hex')\<close>: two hexadecimal digits make a byte; decoding stops at
  the first pair that is not two hexadecimal digits, and a trailing single character is
  dropped.\<close>

definition hex_val :: "char \<Rightarrow> nat option" where
  "hex_val c =
     (let n = (of_char c :: nat) in
      if 48 \<le> n \<and> n \<le> 57 then Some (n - 48)
      else if 97 \<le> n \<and> n \<le> 102 then Some (n - 87)
      else if 65 \<le> n \<and> n \<le> 70 then Some (n - 55)
      else None)"

fun hex_decode :: "string \<Rightarrow> bytes" where
  "hex_decode (a # b # cs) =
     (case (hex_val a, hex_val b) of
        (Some x, Some y) \<Rightarrow> of_nat (16 * x + y) # hex_decode cs
      | _ \<Rightarrow> [])"
| "hex_decode cs = []"

section \<open>KeyManager\<close>

record key_manager =
  masterKeyBuffer :: ref
  rotationIntervalMs :: nat
  currentVersion :: nat
  previousVersion :: "nat option"
  currentKey :: "ref option"
  previousKey :: "ref option"
  rotationTimer :: "nat option"
  lastRotationTime :: "nat option"

definition err_master_key :: string where
  "err_master_key = ''Master key must be 64 hex characters (32 bytes)''"

text \<open>The derivation shared by \<open>_generateInitialKey\<close> and \<open>rotateKey\<close>: a fresh salt,
  the label \<open>vault-key-v<version>\<close>, and \<open>hkdfSync('sha256', master, salt, info, 32)\<close>,
  whose result is an \<open>ArrayBuffer\<close>.\<close>

definition derive_key :: "'j node \<Rightarrow> key_manager \<Rightarrow> runtime \<Rightarrow> (string + ref) \<times> runtime" where
  "derive_key N km rt =
     (let (salt, rt1) = draw_bytes N 32 rt;
          info = ascii_bytes (''vault-key-v'' @ show_nat (currentVersion km))
      in case hkdfSync N (bytes_at rt1 (masterKeyBuffer km)) salt info 32 of
           Inl e \<Rightarrow> (Inl e, rt1)
         | Inr k \<Rightarrow> (let (r, rt2) = alloc (ArrayBuffer k) rt1 in (Inr r, rt2)))"

definition generateInitialKey ::
  "'j node \<Rightarrow> key_manager \<times> runtime \<Rightarrow> (string + unit) \<times> key_manager \<times> runtime" where
  "generateInitialKey N s =
     (let (km, rt) = s in
      case derive_key N km rt of
        (Inl e, rt1) \<Rightarrow> (Inl e, km, rt1)
      | (Inr r, rt1) \<Rightarrow>
          (Inr (), km\<lparr>currentKey := Some r, lastRotationTime := Some (clock rt1)\<rparr>, rt1))"

definition startRotation :: "key_manager \<times> runtime \<Rightarrow> key_manager \<times> runtime" where
  "startRotation s =
     (let (km, rt) = s; t = timers_made rt in
      (km\<lparr>rotationTimer := Some t\<rparr>,
       rt\<lparr>timers := t # timers rt, timers_made := Suc t\<rparr>))"

definition KeyManager_new ::
  "'j node \<Rightarrow> string option \<Rightarrow> nat option \<Rightarrow> runtime \<Rightarrow> (string + key_manager) \<times> runtime" where
  "KeyManager_new N masterKey interval rt =
     (case masterKey of
        None \<Rightarrow> (Inl err_master_key, rt)
      | Some mk \<Rightarrow>
          if mk = [] \<or> length mk \<noteq> 64 then (Inl err_master_key, rt)
          else
            let (m, rt1) = alloc (Buffer (hex_decode mk)) rt;
                km = \<lparr>masterKeyBuffer = m,
                      rotationIntervalMs = (case interval of None \<Rightarrow> 60 * 60 * 1000 | Some i \<Rightarrow> i),
                      currentVersion = 1, previousVersion = None,
                      currentKey = None, previousKey = None,
                      rotationTimer = None, lastRotationTime = None\<rparr>
            in case generateInitialKey N (km, rt1) of
                 (Inl e, km1, rt2) \<Rightarrow> (Inl e, rt2)
               | (Inr u, km1, rt2) \<Rightarrow>
                   (let (km2, rt3) = startRotation (km1, rt2) in (Inr km2, rt3)))"

text \<open>\<open>rotateKey\<close>, statement by statement: the previous slot takes the current key and
  version, the version is incremented, and only then is the new key derived; the timestamp
  is set after the derivation.\<close>

definition rotateKey ::
  "'j node \<Rightarrow> key_manager \<times> runtime \<Rightarrow> (string + unit) \<times> key_manager \<times> runtime" where
  "rotateKey N s =
     (let (km, rt) = s;
          km1 = km\<lparr>previousKey := currentKey km\<rparr>;
          km2 = km1\<lparr>previousVersion := Some (currentVersion km1)\<rparr>;
          km3 = km2\<lparr>currentVersion := currentVersion km2 + 1\<rparr>
      in case derive_key N km3 rt of
           (Inl e, rt1) \<Rightarrow> (Inl e, km3, rt1)
         | (Inr r, rt1) \<Rightarrow>
             (Inr (), km3\<lparr>currentKey := Some r, lastRotationTime := Some (clock rt1)\<rparr>, rt1))"

definition getCurrentKey :: "key_manager \<Rightarrow> ref option \<times> nat" where
  "getCurrentKey km = (currentKey km, currentVersion km)"

definition getKeyByVersion :: "key_manager \<Rightarrow> nat \<Rightarrow> ref option" where
  "getKeyByVersion km version =
     (if version = currentVersion km then currentKey km
      else if Some version = previousVersion km \<and> previousKey km \<noteq> None then previousKey km
      else None)"

definition isVersionSupported :: "key_manager \<Rightarrow> nat \<Rightarrow> bool" where
  "isVersionSupported km version =
     (version = currentVersion km \<or>
      (Some version = previousVersion km \<and> previousKey km \<noteq> None))"

text \<open>\<open>getKeyInfo\<close> computes \<open>lastRotationTime.getTime() + rotationIntervalMs\<close> and so
  throws a \<open>TypeError\<close> while \<open>lastRotationTime\<close> is still \<open>null\<close>.\<close>

definition getKeyInfo :: "key_manager \<Rightarrow> string + (nat \<times> nat option \<times> nat \<times> nat)" where
  "getKeyInfo km =
     (case lastRotationTime km of
        None \<Rightarrow> Inl ''Cannot read properties of null (reading 'getTime')''
      | Some t \<Rightarrow> Inr (currentVersion km, previousVersion km, t, t + rotationIntervalMs km))"

definition forceRotation_km ::
  "'j node \<Rightarrow> key_manager \<times> runtime \<Rightarrow> (string + unit) \<times> key_manager \<times> runtime" where
  "forceRotation_km N s = rotateKey N s"

text \<open>\<open>destroy\<close>: the interval is cleared, then each of the three key fields is zeroed
  if it is set and \<open>Buffer.isBuffer\<close> holds of it.\<close>

definition clearInterval :: "nat \<Rightarrow> runtime \<Rightarrow> runtime" where
  "clearInterval t rt = rt\<lparr>timers := removeAll t (timers rt)\<rparr>"

definition fill0_if_buffer :: "ref option \<Rightarrow> runtime \<Rightarrow> runtime" where
  "fill0_if_buffer k rt =
     (case k of
        None \<Rightarrow> rt
      | Some r \<Rightarrow> (case deref rt r of
                     Some obj \<Rightarrow> if isBuffer obj then fill0 r rt else rt
                   | None \<Rightarrow> rt))"

definition destroy_km :: "key_manager \<times> runtime \<Rightarrow> key_manager \<times> runtime" where
  "destroy_km s =
     (let (km, rt) = s;
          (km1, rt1) = (case rotationTimer km of
                          Some t \<Rightarrow> (km\<lparr>rotationTimer := None\<rparr>, clearInterval t rt)
                        | None \<Rightarrow> (km, rt));
          rt2 = fill0_if_buffer (currentKey km1) rt1;
          rt3 = fill0_if_buffer (previousKey km1) rt2;
          rt4 = fill0_if_buffer (Some (masterKeyBuffer km1)) rt3
      in (km1, rt4))"

section \<open>EncryptionService\<close>

record encrypted_data =
  ciphertext :: bytes
  iv :: bytes
  tag :: bytes

record serialized_data =
  ciphertext_b64 :: string
  iv_b64 :: string
  tag_b64 :: string

definition ivLength :: nat where
  "ivLength = 12"

definition err_encryption :: string where
  "err_encryption = ''Encryption operation failed''"

definition node_auth_message :: string where
  "node_auth_message = ''Unsupported state or unable to authenticate data''"

definition err_authentication :: string where
  "err_authentication = ''Decryption failed: Invalid key or tampered data''"

definition err_decryption :: string where
  "err_decryption = ''Decryption operation failed''"

text \<open>\<open>encrypt(data, key)\<close>. The nonce is drawn before anything can throw. Every
  exception inside the \<open>try\<close> (a \<open>null\<close> key, \<open>JSON.stringify\<close>, the cipher) is
  rethrown as \<open>Encryption operation failed\<close>.\<close>

definition encrypt ::
  "'j node \<Rightarrow> 'j \<Rightarrow> ref option \<Rightarrow> runtime \<Rightarrow> (string + encrypted_data) \<times> runtime" where
  "encrypt N data key rt =
     (let (nonce, rt1) = draw_bytes N ivLength rt in
      case JSON_stringify N data of
        Inl e \<Rightarrow> (Inl err_encryption, rt1)
      | Inr plaintext \<Rightarrow>
          (case key of
             None \<Rightarrow> (Inl err_encryption, rt1)
           | Some k \<Rightarrow>
               (case gcm_encrypt N (bytes_at rt1 k) nonce (utf8_encode N plaintext) of
                  Inl e \<Rightarrow> (Inl err_encryption, rt1)
                | Inr (c, t) \<Rightarrow> (Inr \<lparr>ciphertext = c, iv = nonce, tag = t\<rparr>, rt1))))"

text \<open>\<open>decrypt(ciphertext, iv, tag, key)\<close>. An exception whose message includes Node's
  authentication message becomes \<open>Decryption failed: Invalid key or tampered data\<close>; any
  other one, a failing \<open>JSON.parse\<close> included, becomes \<open>Decryption operation failed\<close>.\<close>

definition decrypt_catch :: "string \<Rightarrow> string" where
  "decrypt_catch message =
     (if str_includes message node_auth_message then err_authentication else err_decryption)"

definition decrypt ::
  "'j node \<Rightarrow> runtime \<Rightarrow> bytes \<Rightarrow> bytes \<Rightarrow> bytes \<Rightarrow> ref \<Rightarrow> string + 'j" where
  "decrypt N rt c nonce t key =
     (case gcm_decrypt N (bytes_at rt key) nonce c t of
        Inl e \<Rightarrow> Inl (decrypt_catch e)
      | Inr plaintextBuffer \<Rightarrow>
          (case JSON_parse N (utf8_decode N plaintextBuffer) of
             Inl e \<Rightarrow> Inl (decrypt_catch e)
           | Inr data \<Rightarrow> Inr data))"

definition serialize :: "'j node \<Rightarrow> encrypted_data \<Rightarrow> serialized_data" where
  "serialize N e =
     \<lparr>ciphertext_b64 = base64_encode N (ciphertext e),
      iv_b64 = base64_encode N (iv e),
      tag_b64 = base64_encode N (tag e)\<rparr>"

definition deserialize :: "'j node \<Rightarrow> serialized_data \<Rightarrow> encrypted_data" where
  "deserialize N s =
     \<lparr>ciphertext = base64_decode N (ciphertext_b64 s),
      iv = base64_decode N (iv_b64 s),
      tag = base64_decode N (tag_b64 s)\<rparr>"

section \<open>DataStore\<close>

text \<open>A stored record keeps the three base64 strings, the key version by number, the
  time of storing and the caller's metadata (always the default \<open>{}\<close> here).\<close>

record stored_record =
  rec_id :: string
  keyVersion :: nat
  rec_ciphertext :: string
  rec_iv :: string
  rec_tag :: string
  timestamp :: nat
  metadata :: "(string \<times> string) list"

type_synonym data_store = "string \<rightharpoonup> stored_record"

definition DataStore_store ::
  "'j node \<Rightarrow> serialized_data \<Rightarrow> nat \<Rightarrow> (string \<times> string) list \<Rightarrow> data_store \<times> runtime
     \<Rightarrow> string \<times> data_store \<times> runtime" where
  "DataStore_store N e version md s =
     (let (storage, rt) = s;
          (i, rt1) = draw_uuid N rt;
          r = \<lparr>rec_id = i, keyVersion = version,
               rec_ciphertext = ciphertext_b64 e, rec_iv = iv_b64 e, rec_tag = tag_b64 e,
               timestamp = clock rt1, metadata = md\<rparr>
      in (i, storage(i \<mapsto> r), rt1))"

definition DataStore_retrieve :: "data_store \<Rightarrow> string \<Rightarrow> stored_record option" where
  "DataStore_retrieve storage i = storage i"

definition DataStore_clear :: "data_store \<Rightarrow> data_store" where
  "DataStore_clear storage = Map.empty"

section \<open>VaultService\<close>

record vault =
  keyManager :: key_manager
  dataStore :: data_store

definition err_store :: string where
  "err_store = ''Failed to store data''"

definition err_not_found :: string where
  "err_not_found = ''Record not found''"

definition err_no_key :: string where
  "err_no_key = ''Decryption key not available''"

definition err_expired :: "nat \<Rightarrow> nat \<Rightarrow> nat option \<Rightarrow> string" where
  "err_expired version cur prev =
     ''Key version '' @ show_nat version @ '' is no longer supported. '' @
     ''Current: '' @ show_nat cur @ '', '' @
     ''Previous: '' @ show_nullable prev"

definition VaultService_new ::
  "'j node \<Rightarrow> string option \<Rightarrow> nat option \<Rightarrow> runtime \<Rightarrow> (string + vault) \<times> runtime" where
  "VaultService_new N masterKey interval rt =
     (case KeyManager_new N masterKey interval rt of
        (Inl e, rt1) \<Rightarrow> (Inl e, rt1)
      | (Inr km, rt1) \<Rightarrow> (Inr \<lparr>keyManager = km, dataStore = Map.empty\<rparr>, rt1))"

text \<open>\<open>store(data)\<close> returns the id, the key version and the time; whatever is thrown
  inside becomes \<open>Failed to store data\<close>.\<close>

definition store ::
  "'j node \<Rightarrow> 'j \<Rightarrow> vault \<times> runtime \<Rightarrow> (string + (string \<times> nat \<times> nat)) \<times> vault \<times> runtime" where
  "store N data s =
     (let (v, rt) = s;
          (key, version) = getCurrentKey (keyManager v)
      in case encrypt N data key rt of
           (Inl e, rt1) \<Rightarrow> (Inl err_store, v, rt1)
         | (Inr encryptedData, rt1) \<Rightarrow>
             (let (i, storage, rt2) =
                    DataStore_store N (serialize N encryptedData) version [] (dataStore v, rt1)
              in (Inr (i, version, clock rt2), v\<lparr>dataStore := storage\<rparr>, rt2)))"

text \<open>\<open>retrieve(id)\<close> changes nothing; its \<open>catch\<close> rethrows the error as it is. The
  result is the data with the record's key version and timestamp.\<close>

definition retrieve :: "'j node \<Rightarrow> string \<Rightarrow> vault \<times> runtime \<Rightarrow> string + ('j \<times> nat \<times> nat)" where
  "retrieve N i s =
     (let (v, rt) = s; km = keyManager v in
      case DataStore_retrieve (dataStore v) i of
        None \<Rightarrow> Inl err_not_found
      | Some record \<Rightarrow>
          if \<not> isVersionSupported km (keyVersion record) then
            (case getKeyInfo km of
               Inl e \<Rightarrow> Inl e
             | Inr (cur, prev, t, next) \<Rightarrow>
                 Inl (err_expired (keyVersion record) (snd (getCurrentKey km)) prev))
          else
            (case getKeyByVersion km (keyVersion record) of
               None \<Rightarrow> Inl err_no_key
             | Some key \<Rightarrow>
                 (let e = deserialize N \<lparr>ciphertext_b64 = rec_ciphertext record,
                                         iv_b64 = rec_iv record,
                                         tag_b64 = rec_tag record\<rparr>
                  in case decrypt N rt (ciphertext e) (iv e) (tag e) key of
                       Inl m \<Rightarrow> Inl m
                     | Inr data \<Rightarrow> Inr (data, keyVersion record, timestamp record))))"

definition forceRotation ::
  "'j node \<Rightarrow> vault \<times> runtime \<Rightarrow> (string + unit) \<times> vault \<times> runtime" where
  "forceRotation N s =
     (let (v, rt) = s in
      case forceRotation_km N (keyManager v, rt) of
        (r, km, rt1) \<Rightarrow> (r, v\<lparr>keyManager := km\<rparr>, rt1))"

definition destroy :: "vault \<times> runtime \<Rightarrow> vault \<times> runtime" where
  "destroy s =
     (let (v, rt) = s;
          (km, rt1) = destroy_km (keyManager v, rt)
      in (v\<lparr>keyManager := km, dataStore := DataStore_clear (dataStore v)\<rparr>, rt1))"

section \<open>Runs of the vault\<close>


text \<open>The states a vault can be in: constructed, then any number of rotations, stores and
  \<open>destroy\<close> calls, while the clock moves on.\<close>

inductive reachable :: "'j node \<Rightarrow> vault \<times> runtime \<Rightarrow> bool" for N :: "'j node" where
  constructed: "VaultService_new N masterKey interval rt0 = (Inr v, rt) \<Longrightarrow> reachable N (v, rt)"
| rotated: "reachable N s \<Longrightarrow> reachable N (snd (forceRotation N s))"
| stored: "reachable N s \<Longrightarrow> reachable N (snd (store N d s))"
| destroyed: "reachable N s \<Longrightarrow> reachable N (destroy s)"
| tick: "reachable N (v, rt) \<Longrightarrow> clock rt \<le> t \<Longrightarrow> reachable N (v, rt\<lparr>clock := t\<rparr>)"

text \<open>What holds of the key manager in every such state.\<close>

definition km_ok :: "key_manager \<Rightarrow> bool" where
  "km_ok km \<longleftrightarrow>
     currentKey km \<noteq> None \<and> lastRotationTime km \<noteq> None \<and>
     (previousKey km = None \<longrightarrow> previousVersion km = None) \<and>
     (previousKey km \<noteq> None \<longrightarrow> (\<exists>p. previousVersion km = Some p \<and> currentVersion km = p + 1))"

text \<open>What holds of the data store in every such state: no record is newer than the current
  key, and a record whose version the manager still resolves to a key was sealed by
  \<open>encrypt\<close> under the bytes of that very key.\<close>

definition records_sealed :: "'j node \<Rightarrow> vault \<times> runtime \<Rightarrow> bool" where
  "records_sealed N s \<longleftrightarrow>
     (\<forall>i rec. dataStore (fst s) i = Some rec \<longrightarrow>
        keyVersion rec \<le> currentVersion (keyManager (fst s)) \<and>
        (\<forall>r. getKeyByVersion (keyManager (fst s)) (keyVersion rec) = Some r \<longrightarrow>
           (\<exists>nonce p c t.
              gcm_encrypt N (bytes_at (snd s) r) nonce p = Inr (c, t) \<and>
              rec_ciphertext rec = base64_encode N c \<and>
              rec_iv rec = base64_encode N nonce \<and>
              rec_tag rec = base64_encode N t)))"

section \<open>What the library is taken to do\<close>

text \<open>The claims about encryption hold relative to the library: AES-256-GCM decrypts what
  it encrypted under a 32-byte key and a 12-byte nonce, base64 decoding undoes encoding,
  \<open>hkdfSync\<close> and \<open>randomBytes\<close> return as many bytes as asked for.\<close>

definition node_contract :: "'j node \<Rightarrow> bool" where
  "node_contract N \<longleftrightarrow>
     (\<forall>k nonce p. length k = 32 \<and> length nonce = 12 \<longrightarrow>
        (\<exists>c t. gcm_encrypt N k nonce p = Inr (c, t) \<and> gcm_decrypt N k nonce c t = Inr p)) \<and>
     (\<forall>b. base64_decode N (base64_encode N b) = b) \<and>
     (\<forall>ikm salt info n k. hkdfSync N ikm salt info n = Inr k \<longrightarrow> length k = n) \<and>
     (\<forall>i n. length (randomBytes N i n) = n)"

text \<open>A plaintext is JSON-serializable when \<open>JSON.stringify\<close> accepts it and
  \<open>JSON.parse\<close> gives it back from the UTF-8 bytes of the text.\<close>

definition json_serializable :: "'j node \<Rightarrow> 'j \<Rightarrow> bool" where
  "json_serializable N d \<longleftrightarrow>
     (\<exists>s. JSON_stringify N d = Inr s \<and> JSON_parse N (utf8_decode N (utf8_encode N s)) = Inr d)"

subsection \<open>Tampering with a stored record\<close>

datatype field = Ciphertext | Nonce | Tag

text \<open>Bit \<open>b\<close> of byte \<open>i\<close> is flipped.\<close>

definition flip_at :: "nat \<Rightarrow> nat \<Rightarrow> bytes \<Rightarrow> bytes" where
  "flip_at i b bs = bs[i := flip_bit b (bs ! i)]"

fun field_of :: "field \<Rightarrow> encrypted_data \<Rightarrow> bytes" where
  "field_of Ciphertext e = ciphertext e"
| "field_of Nonce e = iv e"
| "field_of Tag e = tag e"

fun tamper :: "field \<Rightarrow> nat \<Rightarrow> nat \<Rightarrow> encrypted_data \<Rightarrow> encrypted_data" where
  "tamper Ciphertext i b e = e\<lparr>ciphertext := flip_at i b (ciphertext e)\<rparr>"
| "tamper Nonce i b e = e\<lparr>iv := flip_at i b (iv e)\<rparr>"
| "tamper Tag i b e = e\<lparr>tag := flip_at i b (tag e)\<rparr>"

definition record_data :: "'j node \<Rightarrow> stored_record \<Rightarrow> encrypted_data" where
  "record_data N r =
     deserialize N \<lparr>ciphertext_b64 = rec_ciphertext r, iv_b64 = rec_iv r, tag_b64 = rec_tag r\<rparr>"

text \<open>The record with one bit of one of its three binary fields flipped, stored again
  as base64.\<close>

definition tamper_record :: "'j node \<Rightarrow> field \<Rightarrow> nat \<Rightarrow> nat \<Rightarrow> stored_record \<Rightarrow> stored_record" where
  "tamper_record N f i b r =
     (let s = serialize N (tamper f i b (record_data N r))
      in r\<lparr>rec_ciphertext := ciphertext_b64 s, rec_iv := iv_b64 s, rec_tag := tag_b64 s\<rparr>)"

text \<open>AES-GCM's answer to a flipped bit: \<open>final\<close> throws Node's authentication error.\<close>

definition gcm_authenticates :: "'j node \<Rightarrow> bool" where
  "gcm_authenticates N \<longleftrightarrow>
     (\<forall>k nonce p c t f i b.
        gcm_encrypt N k nonce p = Inr (c, t) \<and>
        i < length (field_of f \<lparr>ciphertext = c, iv = nonce, tag = t\<rparr>) \<and> b < 8 \<longrightarrow>
        (\<exists>m. gcm_decrypt N k
                (iv (tamper f i b \<lparr>ciphertext = c, iv = nonce, tag = t\<rparr>))
                (ciphertext (tamper f i b \<lparr>ciphertext = c, iv = nonce, tag = t\<rparr>))
                (tag (tamper f i b \<lparr>ciphertext = c, iv = nonce, tag = t\<rparr>)) = Inl m \<and>
              str_includes m node_auth_message))"

section \<open>A small runtime to run the model on\<close>

text \<open>An instance of the library parameters that can be evaluated: the derived key repeats
  the last byte of the label, the cipher masks every byte with the first key byte and its
  tag is the nonce followed by the ciphertext, JSON values are strings.\<close>

definition toy :: "string node" where
  "toy = \<lparr>randomBytes = (\<lambda>i n. replicate n (of_nat i)),
          randomUUID = (\<lambda>i. ''id-'' @ show_nat i),
          hkdfSync = (\<lambda>ikm salt info n. Inr (replicate n (last info))),
          gcm_encrypt = (\<lambda>k nonce p.
             if length k = 32 then Inr (map (\<lambda>x. x XOR hd k) p, nonce @ map (\<lambda>x. x XOR hd k) p)
             else Inl ''Invalid key length''),
          gcm_decrypt = (\<lambda>k nonce c t.
             if length k \<noteq> 32 then Inl ''Invalid key length''
             else if t = nonce @ c then Inr (map (\<lambda>x. x XOR hd k) c)
             else Inl ''Unsupported state or unable to authenticate data''),
          JSON_stringify = (\<lambda>d. Inr d),
          JSON_parse = (\<lambda>s. Inr s),
          utf8_encode = ascii_bytes,
          utf8_decode = map (\<lambda>w. char_of (unat w)),
          base64_encode = map (\<lambda>w. char_of (unat w)),
          base64_decode = ascii_bytes\<rparr>"

text \<open>The same runtime with a key derivation that throws for version 2.\<close>

definition toy_kdf_fails :: "string node" where
  "toy_kdf_fails =
     toy\<lparr>hkdfSync := (\<lambda>ikm salt info n.
            if info = ascii_bytes ''vault-key-v2'' then Inl ''hkdf failed''
            else Inr (replicate n (last info)))\<rparr>"

definition toy_rt0 :: runtime where
  "toy_rt0 = \<lparr>heap = [], draws = 0, clock = 1000, timers = [], timers_made = 0\<rparr>"

definition key64 :: string where
  "key64 = concat (replicate 32 ''a1'')"

definition secret32 :: bytes where
  "secret32 = replicate 32 161"

definition key_v :: "nat \<Rightarrow> bytes" where
  "key_v n = replicate 32 (48 + of_nat n)"

text \<open>The key manager and the runtime right after \<open>new KeyManager(key64, 5000)\<close> on
  \<open>toy_rt0\<close>, and after one and two rotations.\<close>

definition toy_km1 :: key_manager where
  "toy_km1 = \<lparr>masterKeyBuffer = 0, rotationIntervalMs = 5000, currentVersion = 1,
          previousVersion = None, currentKey = Some 1, previousKey = None,
          rotationTimer = Some 0, lastRotationTime = Some 1000\<rparr>"

definition toy_rt1 :: runtime where
  "toy_rt1 = \<lparr>heap = [Buffer secret32, ArrayBuffer (key_v 1)],
          draws = 1, clock = 1000, timers = [0], timers_made = 1\<rparr>"

definition toy_km2 :: key_manager where
  "toy_km2 = toy_km1\<lparr>currentVersion := 2, previousVersion := Some 1,
             currentKey := Some 2, previousKey := Some 1\<rparr>"

definition toy_rt2 :: runtime where
  "toy_rt2 = toy_rt1\<lparr>heap := [Buffer secret32, ArrayBuffer (key_v 1), ArrayBuffer (key_v 2)], draws := 2\<rparr>"

definition toy_km3 :: key_manager where
  "toy_km3 = toy_km1\<lparr>currentVersion := 3, previousVersion := Some 2,
             currentKey := Some 3, previousKey := Some 2\<rparr>"

definition toy_rt3 :: runtime where
  "toy_rt3 = toy_rt1\<lparr>heap := [Buffer secret32, ArrayBuffer (key_v 1), ArrayBuffer (key_v 2),
                      ArrayBuffer (key_v 3)], draws := 3\<rparr>"

text \<open>The vault right after \<open>new VaultService(key64, 5000)\<close>.\<close>

definition toy_vault1 :: vault where
  "toy_vault1 = \<lparr>keyManager = toy_km1, dataStore = Map.empty\<rparr>"

text \<open>The state after \<open>store('hello')\<close> on that vault, and the record it wrote.\<close>

definition toy_stored :: "vault \<times> runtime" where
  "toy_stored = snd (store toy ''hello'' (toy_vault1, toy_rt1))"

definition toy_record :: stored_record where
  "toy_record = \<lparr>rec_id = ''id-2'', keyVersion = 1, rec_ciphertext = ''YT]]^'',
                 rec_iv = replicate 12 (CHR 0x01),
                 rec_tag = replicate 12 (CHR 0x01) @ ''YT]]^'',
                 timestamp = 1000, metadata = []\<rparr>"

text \<open>That state after one rotation, and after two.\<close>

definition toy_rotated :: "vault \<times> runtime" where
  "toy_rotated = snd (forceRotation toy toy_stored)"

definition toy_expired :: "vault \<times> runtime" where
  "toy_expired = snd (forceRotation toy toy_rotated)"

section \<open>Facts about the key manager\<close>

lemma derive_key_cases:
  "(\<exists>e. derive_key N km rt = (Inl e, rt\<lparr>draws := Suc (draws rt)\<rparr>)) \<or>
   (\<exists>k. hkdfSync N (bytes_at rt (masterKeyBuffer km)) (randomBytes N (draws rt) 32)
           (ascii_bytes (''vault-key-v'' @ show_nat (currentVersion km))) 32 = Inr k \<and>
        derive_key N km rt =
          (Inr (length (heap rt)), rt\<lparr>draws := Suc (draws rt), heap := heap rt @ [ArrayBuffer k]\<rparr>))"
  by (auto simp: derive_key_def draw_bytes_def alloc_def bytes_at_def deref_def split: sum.splits)

lemma rotateKey_versions:
  assumes "rotateKey N (km, rt) = (res, km', rt')"
  shows "currentVersion km' = currentVersion km + 1"
    and "previousVersion km' = Some (currentVersion km)"
    and "previousKey km' = currentKey km"
    and "masterKeyBuffer km' = masterKeyBuffer km"
    and "rotationTimer km' = rotationTimer km"
    and "rotationIntervalMs km' = rotationIntervalMs km"
  using assms by (auto simp: rotateKey_def Let_def split: prod.splits sum.splits)

lemma rotateKey_failure:
  assumes "rotateKey N (km, rt) = (Inl e, km', rt')"
  shows "km' = km\<lparr>previousKey := currentKey km, previousVersion := Some (currentVersion km),
                   currentVersion := currentVersion km + 1\<rparr>"
    and "rt' = rt\<lparr>draws := Suc (draws rt)\<rparr>"
  using assms derive_key_cases [of N "km\<lparr>previousKey := currentKey km, previousVersion := Some (currentVersion km),
                   currentVersion := currentVersion km + 1\<rparr>" rt]
  by (auto simp: rotateKey_def Let_def split: prod.splits sum.splits)

lemma rotateKey_success:
  assumes "rotateKey N (km, rt) = (Inr u, km', rt')"
  shows "currentKey km' = Some (length (heap rt))"
    and "lastRotationTime km' = Some (clock rt)"
    and "\<exists>k. heap rt' = heap rt @ [ArrayBuffer k]"
  using assms derive_key_cases [of N "km\<lparr>previousKey := currentKey km, previousVersion := Some (currentVersion km),
                   currentVersion := currentVersion km + 1\<rparr>" rt]
  by (auto simp: rotateKey_def Let_def split: prod.splits sum.splits)

lemma KeyManager_new_rejects:
  "masterKey = None \<or> length (the masterKey) \<noteq> 64 \<Longrightarrow>
   KeyManager_new N masterKey interval rt = (Inl err_master_key, rt)"
  by (auto simp: KeyManager_new_def split: option.splits)

lemma KeyManager_new_success:
  assumes "KeyManager_new N masterKey interval rt = (Inr km, rt')"
  shows "\<exists>mk k. masterKey = Some mk \<and> length mk = 64 \<and>
           hkdfSync N (hex_decode mk) (randomBytes N (draws rt) 32)
             (ascii_bytes (''vault-key-v'' @ show_nat 1)) 32 = Inr k \<and>
           km = \<lparr>masterKeyBuffer = length (heap rt),
                 rotationIntervalMs = (case interval of None \<Rightarrow> 60 * 60 * 1000 | Some i \<Rightarrow> i),
                 currentVersion = 1, previousVersion = None,
                 currentKey = Some (Suc (length (heap rt))), previousKey = None,
                 rotationTimer = Some (timers_made rt), lastRotationTime = Some (clock rt)\<rparr> \<and>
           rt' = rt\<lparr>heap := heap rt @ [Buffer (hex_decode mk), ArrayBuffer k],
                    draws := Suc (draws rt),
                    timers := timers_made rt # timers rt,
                    timers_made := Suc (timers_made rt)\<rparr>"
proof -
  from assms obtain mk where mk: "masterKey = Some mk" "length mk = 64"
    by (auto simp: KeyManager_new_def split: option.splits if_splits)
  define rt1 where "rt1 = rt\<lparr>heap := heap rt @ [Buffer (hex_decode mk)]\<rparr>"
  define km0 where "km0 = \<lparr>masterKeyBuffer = length (heap rt),
                 rotationIntervalMs = (case interval of None \<Rightarrow> 60 * 60 * 1000 | Some i \<Rightarrow> i),
                 currentVersion = 1, previousVersion = None,
                 currentKey = None, previousKey = None,
                 rotationTimer = None, lastRotationTime = None\<rparr>"
  have m: "bytes_at rt1 (masterKeyBuffer km0) = hex_decode mk"
    by (simp add: rt1_def km0_def bytes_at_def deref_def)
  have v: "currentVersion km0 = 1"
    by (simp add: km0_def)
  from mk have ne: "mk \<noteq> []" by auto
  have unfold: "KeyManager_new N masterKey interval rt =
      (case generateInitialKey N (km0, rt1) of
         (Inl e, km1, rt2) \<Rightarrow> (Inl e, rt2)
       | (Inr u, km1, rt2) \<Rightarrow> (let (km2, rt3) = startRotation (km1, rt2) in (Inr km2, rt3)))"
    using mk ne by (simp add: KeyManager_new_def alloc_def rt1_def km0_def)
  from derive_key_cases [of N km0 rt1]
  show ?thesis
  proof
    assume "\<exists>e. derive_key N km0 rt1 = (Inl e, rt1\<lparr>draws := Suc (draws rt1)\<rparr>)"
    with assms unfold show ?thesis
      by (auto simp: generateInitialKey_def)
  next
    assume "\<exists>k. hkdfSync N (bytes_at rt1 (masterKeyBuffer km0)) (randomBytes N (draws rt1) 32)
           (ascii_bytes (''vault-key-v'' @ show_nat (currentVersion km0))) 32 = Inr k \<and>
        derive_key N km0 rt1 =
          (Inr (length (heap rt1)), rt1\<lparr>draws := Suc (draws rt1), heap := heap rt1 @ [ArrayBuffer k]\<rparr>)"
    then obtain k where k: "hkdfSync N (hex_decode mk) (randomBytes N (draws rt1) 32)
           (ascii_bytes (''vault-key-v'' @ show_nat 1)) 32 = Inr k"
      and d: "derive_key N km0 rt1 =
          (Inr (length (heap rt1)), rt1\<lparr>draws := Suc (draws rt1), heap := heap rt1 @ [ArrayBuffer k]\<rparr>)"
      unfolding m v by blast
    from assms unfold d have "km = km0\<lparr>currentKey := Some (length (heap rt1)),
          lastRotationTime := Some (clock rt1), rotationTimer := Some (timers_made rt1)\<rparr>"
      and "rt' = rt1\<lparr>draws := Suc (draws rt1), heap := heap rt1 @ [ArrayBuffer k],
          timers := timers_made rt1 # timers rt1, timers_made := Suc (timers_made rt1)\<rparr>"
      by (auto simp: generateInitialKey_def startRotation_def Let_def)
    with mk k show ?thesis
      by (simp add: km0_def rt1_def)
  qed
qed






section \<open>Reachable states\<close>

lemma rotateKey_km_ok:
  assumes "km_ok km" and "rotateKey N (km, rt) = (res, km', rt')"
  shows "km_ok km'"
proof (cases res)
  case (Inl e)
  with assms rotateKey_failure(1) [of N km rt e km' rt'] show ?thesis
    by (auto simp: km_ok_def)
next
  case (Inr u)
  with assms(2) have r: "rotateKey N (km, rt) = (Inr u, km', rt')" by simp
  from rotateKey_versions [OF assms(2)] rotateKey_success(1,2) [OF r] assms(1)
  show ?thesis
    by (auto simp: km_ok_def)
qed

lemma store_keyManager: "keyManager (fst (snd (store N d s))) = keyManager (fst s)"
  by (cases s) (auto simp: store_def Let_def DataStore_store_def split: prod.splits sum.splits)

lemma destroy_km_fields:
  assumes "destroy_km (km, rt) = (km', rt')"
  shows "km' = km\<lparr>rotationTimer := None\<rparr>"
  using assms by (auto simp: destroy_km_def Let_def split: option.splits prod.splits)

lemma reachable_km_ok:
  assumes "reachable N s"
  shows "km_ok (keyManager (fst s))"
  using assms
proof (induction rule: reachable.induct)
  case (constructed masterKey interval r0 v rt)
  then obtain km where km: "KeyManager_new N masterKey interval r0 = (Inr km, rt)"
    and v: "v = \<lparr>keyManager = km, dataStore = Map.empty\<rparr>"
    by (auto simp: VaultService_new_def split: prod.splits sum.splits)
  from KeyManager_new_success [OF km] v show ?case
    by (auto simp: km_ok_def)
next
  case (rotated s)
  obtain v rt where s: "s = (v, rt)" by (cases s)
  obtain res km' rt' where r: "rotateKey N (keyManager v, rt) = (res, km', rt')"
    by (cases "rotateKey N (keyManager v, rt)")
  from rotated.IH s have "km_ok (keyManager v)" by simp
  from rotateKey_km_ok [OF this r] s r show ?case
    by (simp add: forceRotation_def forceRotation_km_def)
next
  case (stored s d)
  then show ?case by (simp add: store_keyManager)
next
  case (destroyed s)
  obtain v rt where s: "s = (v, rt)" by (cases s)
  obtain km' rt' where d: "destroy_km (keyManager v, rt) = (km', rt')"
    by (cases "destroy_km (keyManager v, rt)")
  from destroyed.IH s destroy_km_fields [OF d] d show ?case
    by (simp add: destroy_def km_ok_def)
next
  case (tick v rt t)
  then show ?case by simp
qed

lemma toy_km_new: "KeyManager_new toy (Some key64) (Some 5000) toy_rt0 = (Inr toy_km1, toy_rt1)"
  by code_simp

lemma toy_vault_new:
  "VaultService_new toy (Some key64) (Some 5000) toy_rt0 = (Inr toy_vault1, toy_rt1)"
  using toy_km_new by (simp add: VaultService_new_def toy_vault1_def)

lemma toy_reachable1: "reachable toy (toy_vault1, toy_rt1)"
  using toy_vault_new by (rule reachable.constructed)

lemma toy_rotate1: "rotateKey toy (toy_km1, toy_rt1) = (Inr (), toy_km2, toy_rt2)"
  by code_simp

lemma toy_rotate2: "rotateKey toy (toy_km2, toy_rt2) = (Inr (), toy_km3, toy_rt3)"
  by code_simp

lemma toy_reachable2: "reachable toy (\<lparr>keyManager = toy_km2, dataStore = Map.empty\<rparr>, toy_rt2)"
  using reachable.rotated [OF toy_reachable1] toy_rotate1
  by (simp add: forceRotation_def forceRotation_km_def toy_vault1_def)

text \<open>
  C3. In every reachable state and for every version number: \<open>getKeyByVersion\<close> returns
  the current key, which is there, at the current version; the previous key at the previous
  version when the previous slot is populated; \<open>null\<close> in every other case; and
  \<open>isVersionSupported\<close> is true exactly when \<open>getKeyByVersion\<close> returns a key.
\<close>

theorem key_lookup_by_version:
  assumes "reachable N (v, rt)"
  shows "(ver = currentVersion (keyManager v) \<longrightarrow>
            (\<exists>k. currentKey (keyManager v) = Some k \<and> getKeyByVersion (keyManager v) ver = Some k)) \<and>
         (previousKey (keyManager v) \<noteq> None \<and> previousVersion (keyManager v) = Some ver \<longrightarrow>
            getKeyByVersion (keyManager v) ver = previousKey (keyManager v)) \<and>
         (ver \<noteq> currentVersion (keyManager v) \<and>
          \<not> (previousKey (keyManager v) \<noteq> None \<and> previousVersion (keyManager v) = Some ver) \<longrightarrow>
            getKeyByVersion (keyManager v) ver = None) \<and>
         (isVersionSupported (keyManager v) ver \<longleftrightarrow> getKeyByVersion (keyManager v) ver \<noteq> None)"
proof -
  from reachable_km_ok [OF assms] have ok: "km_ok (keyManager v)" by simp
  then obtain k where k: "currentKey (keyManager v) = Some k"
    by (auto simp: km_ok_def)
  from ok have adj: "previousKey (keyManager v) \<noteq> None \<Longrightarrow>
      previousVersion (keyManager v) \<noteq> Some (currentVersion (keyManager v))"
    by (auto simp: km_ok_def)
  from k adj show ?thesis
    by (auto simp: getKeyByVersion_def isVersionSupported_def)
qed

theorem key_lookup_by_version_witness:
  "reachable toy (\<lparr>keyManager = toy_km2, dataStore = Map.empty\<rparr>, toy_rt2) \<and>
   getKeyByVersion toy_km2 2 = Some 2 \<and> getKeyByVersion toy_km2 1 = Some 1 \<and>
   getKeyByVersion toy_km2 3 = None \<and>
   isVersionSupported toy_km2 2 \<and> isVersionSupported toy_km2 1 \<and> \<not> isVersionSupported toy_km2 3"
proof -
  have f: "currentVersion toy_km2 = 2" "previousVersion toy_km2 = Some 1"
    "previousKey toy_km2 = Some 1" "currentKey toy_km2 = Some 2"
    by (simp_all add: toy_km2_def toy_km1_def)
  from key_lookup_by_version [OF toy_reachable2, of 2]
    key_lookup_by_version [OF toy_reachable2, of 1]
    key_lookup_by_version [OF toy_reachable2, of 3]
    toy_reachable2 f
  show ?thesis by simp
qed

text \<open>
  C10. A rotation leaves the data store as it was: the same ids, and under each id the same
  record with the same ciphertext, iv, tag, key version, timestamp and metadata.
\<close>

theorem rotation_keeps_data_store:
  "dataStore (fst (snd (forceRotation N (v, rt)))) = dataStore v \<and>
   dom (dataStore (fst (snd (forceRotation N (v, rt))))) = dom (dataStore v)"
  by (simp add: forceRotation_def split: prod.splits)

section \<open>Storing and retrieving\<close>

lemma bytes_at_draws [simp]: "bytes_at (rt\<lparr>draws := n\<rparr>) r = bytes_at rt r"
  by (simp add: bytes_at_def deref_def)

lemma store_success:
  assumes "store N d (v, rt) = (Inr (i, ver, ts), v', rt')"
  shows "\<exists>r s c t.
           currentKey (keyManager v) = Some r \<and> ver = currentVersion (keyManager v) \<and>
           JSON_stringify N d = Inr s \<and>
           gcm_encrypt N (bytes_at rt r) (randomBytes N (draws rt) 12) (utf8_encode N s) = Inr (c, t) \<and>
           i = randomUUID N (Suc (draws rt)) \<and>
           v' = v\<lparr>dataStore := (dataStore v)(i \<mapsto>
                   \<lparr>rec_id = i, keyVersion = ver,
                    rec_ciphertext = base64_encode N c,
                    rec_iv = base64_encode N (randomBytes N (draws rt) 12),
                    rec_tag = base64_encode N t,
                    timestamp = clock rt, metadata = []\<rparr>)\<rparr> \<and>
           rt' = rt\<lparr>draws := Suc (Suc (draws rt))\<rparr>"
  using assms
  by (auto simp: store_def getCurrentKey_def encrypt_def draw_bytes_def ivLength_def Let_def
        DataStore_store_def draw_uuid_def serialize_def
      split: sum.splits option.splits prod.splits)

lemma forceRotation_result:
  assumes "forceRotation N (v, rt) = (res, v', rt')"
  shows "rotateKey N (keyManager v, rt) = (res, keyManager v', rt') \<and> dataStore v' = dataStore v"
  using assms by (auto simp: forceRotation_def forceRotation_km_def split: prod.splits)

lemma err_expired_distinct:
  "err_expired a b c \<noteq> err_not_found" "err_expired a b c \<noteq> err_authentication"
  "err_expired a b c \<noteq> err_decryption" "err_expired a b c \<noteq> err_no_key"
  by (simp_all add: err_expired_def err_not_found_def err_authentication_def err_decryption_def
        err_no_key_def)

text \<open>
  C5. A record stored under key version \<open>V\<close> is refused after two rotations: \<open>retrieve\<close>
  throws the key-version error, whose message names \<open>V\<close>, the current version \<open>V + 2\<close>
  and the previous version \<open>V + 1\<close>, and which is neither \<open>Record not found\<close> nor one
  of the decryption errors.
\<close>

theorem two_rotation_expiry:
  assumes "reachable N s"
      and "store N d s = (Inr (i, V, ts), s1)"
  shows "V = currentVersion (keyManager (fst s)) \<and>
         retrieve N i (snd (forceRotation N (snd (forceRotation N s1)))) =
           Inl (''Key version '' @ show_nat V @ '' is no longer supported. Current: '' @
                show_nat (V + 2) @ '', Previous: '' @ show_nat (V + 1)) \<and>
         retrieve N i (snd (forceRotation N (snd (forceRotation N s1)))) \<noteq> Inl err_not_found \<and>
         retrieve N i (snd (forceRotation N (snd (forceRotation N s1)))) \<noteq> Inl err_authentication \<and>
         retrieve N i (snd (forceRotation N (snd (forceRotation N s1)))) \<noteq> Inl err_decryption"
proof -
  obtain v rt where s: "s = (v, rt)" by (cases s)
  obtain v1 rt1 where s1: "s1 = (v1, rt1)" by (cases s1)
  from store_success [of N d v rt i V ts v1 rt1] assms(2) s s1
  obtain rec where V: "V = currentVersion (keyManager v)"
    and km1: "keyManager v1 = keyManager v"
    and rec: "dataStore v1 i = Some rec" "keyVersion rec = V"
    by auto
  from reachable_km_ok [OF assms(1)] s km1 have ok1: "km_ok (keyManager v1)" by simp
  obtain res2 v2 rt2 where f2: "forceRotation N (v1, rt1) = (res2, v2, rt2)"
    by (cases "forceRotation N (v1, rt1)")
  obtain res3 v3 rt3 where f3: "forceRotation N (v2, rt2) = (res3, v3, rt3)"
    by (cases "forceRotation N (v2, rt2)")
  note r2 = forceRotation_result [OF f2] and r3 = forceRotation_result [OF f3]
  from r2 have k2: "rotateKey N (keyManager v1, rt1) = (res2, keyManager v2, rt2)" by simp
  from r3 have k3: "rotateKey N (keyManager v2, rt2) = (res3, keyManager v3, rt3)" by simp
  have ok3: "km_ok (keyManager v3)"
    by (rule rotateKey_km_ok [OF rotateKey_km_ok [OF ok1 k2] k3])
  then obtain t where t: "lastRotationTime (keyManager v3) = Some t"
    by (auto simp: km_ok_def)
  from rotateKey_versions(1,2) [OF k2] rotateKey_versions(1,2) [OF k3] km1 V
  have vers: "currentVersion (keyManager v3) = V + 2" "previousVersion (keyManager v3) = Some (V + 1)"
    by simp_all
  from r2 r3 rec have rec3: "dataStore v3 i = Some rec" by simp
  have "retrieve N i (v3, rt3) = Inl (err_expired V (V + 2) (Some (V + 1)))"
    using rec3 rec(2) vers t
    by (simp add: retrieve_def DataStore_retrieve_def isVersionSupported_def getKeyInfo_def
          getCurrentKey_def Let_def)
  moreover have "err_expired V (V + 2) (Some (V + 1)) =
      ''Key version '' @ show_nat V @ '' is no longer supported. Current: '' @
                show_nat (V + 2) @ '', Previous: '' @ show_nat (V + 1)"
    by (simp add: err_expired_def)
  ultimately show ?thesis
    using V s s1 f2 f3 err_expired_distinct [of V "V + 2" "Some (V + 1)"]
    by (simp del: append.simps)
qed

lemma toy_store_hello:
  "fst (store toy ''hello'' (toy_vault1, toy_rt1)) = Inr (''id-2'', 1, 1000)"
  by code_simp

theorem two_rotation_expiry_witness:
  "reachable toy (toy_vault1, toy_rt1) \<and>
   fst (store toy ''hello'' (toy_vault1, toy_rt1)) = Inr (''id-2'', 1, 1000) \<and>
   retrieve toy ''id-2''
     (snd (forceRotation toy (snd (forceRotation toy (snd (store toy ''hello'' (toy_vault1, toy_rt1))))))) =
   Inl ''Key version 1 is no longer supported. Current: 3, Previous: 2''"
proof -
  have st: "store toy ''hello'' (toy_vault1, toy_rt1) =
      (Inr (''id-2'', 1, 1000), snd (store toy ''hello'' (toy_vault1, toy_rt1)))"
    using toy_store_hello by (metis prod.collapse)
  have n: "show_nat (Suc 0) = ''1''" "show_nat (Suc (Suc 0)) = ''2''"
    "show_nat (Suc (Suc (Suc 0))) = ''3''"
    by code_simp+
  from two_rotation_expiry [OF toy_reachable1 st] toy_reachable1 toy_store_hello n
  show ?thesis by simp
qed

lemma store_then_retrieve:
  assumes N: "node_contract N" and d: "json_serializable N d"
    and key: "currentKey (keyManager v) = Some r" "length (bytes_at rt r) = 32"
  shows "\<exists>i v' rt'.
           store N d (v, rt) = (Inr (i, currentVersion (keyManager v), clock rt), v', rt') \<and>
           retrieve N i (v', rt') = Inr (d, currentVersion (keyManager v), clock rt)"
proof -
  define nonce where "nonce = randomBytes N (draws rt) 12"
  from N have len: "length nonce = 12"
    by (simp add: node_contract_def nonce_def)
  from d obtain s where s: "JSON_stringify N d = Inr s"
    and p: "JSON_parse N (utf8_decode N (utf8_encode N s)) = Inr d"
    by (auto simp: json_serializable_def)
  from N key(2) len obtain c t
    where enc: "gcm_encrypt N (bytes_at rt r) nonce (utf8_encode N s) = Inr (c, t)"
      and dec: "gcm_decrypt N (bytes_at rt r) nonce c t = Inr (utf8_encode N s)"
    unfolding node_contract_def by blast
  from N have b64: "base64_decode N (base64_encode N b) = b" for b
    by (simp add: node_contract_def)
  define i where "i = randomUUID N (Suc (draws rt))"
  define rec where "rec = \<lparr>rec_id = i, keyVersion = currentVersion (keyManager v),
                    rec_ciphertext = base64_encode N c,
                    rec_iv = base64_encode N nonce,
                    rec_tag = base64_encode N t,
                    timestamp = clock rt, metadata = []\<rparr>"
  define v' where "v' = v\<lparr>dataStore := (dataStore v)(i \<mapsto> rec)\<rparr>"
  define rt' where "rt' = rt\<lparr>draws := Suc (Suc (draws rt))\<rparr>"
  have st: "store N d (v, rt) = (Inr (i, currentVersion (keyManager v), clock rt), v', rt')"
    using s enc key(1)
    by (simp add: store_def getCurrentKey_def encrypt_def draw_bytes_def ivLength_def Let_def
          DataStore_store_def draw_uuid_def serialize_def nonce_def i_def rec_def v'_def rt'_def)
  have "decrypt N rt' c nonce t r = Inr d"
    using dec p by (simp add: decrypt_def rt'_def)
  then have "retrieve N i (v', rt') = Inr (d, currentVersion (keyManager v), clock rt)"
    using key(1) b64
    by (simp add: retrieve_def DataStore_retrieve_def isVersionSupported_def getKeyByVersion_def
          deserialize_def Let_def v'_def rec_def)
  with st show ?thesis by blast
qed

text \<open>
  C1. On a freshly constructed vault, for every plaintext that survives
  \<open>JSON.stringify\<close> and \<open>JSON.parse\<close>, \<open>store\<close> succeeds under key version 1 and
  \<open>retrieve\<close> of the id it returns succeeds with exactly that plaintext as its data.
\<close>

theorem store_retrieve_roundtrip:
  assumes "node_contract N" and "json_serializable N d"
    and "VaultService_new N masterKey interval r0 = (Inr v, rt)"
  shows "\<exists>i ts v' rt'.
           store N d (v, rt) = (Inr (i, 1, ts), v', rt') \<and>
           (\<exists>encryptedAt. retrieve N i (v', rt') = Inr (d, 1, encryptedAt))"
proof -
  from assms(3) obtain km where km: "KeyManager_new N masterKey interval r0 = (Inr km, rt)"
    and v: "keyManager v = km"
    by (auto simp: VaultService_new_def split: prod.splits sum.splits)
  from KeyManager_new_success [OF km] obtain mk k
    where k: "hkdfSync N (hex_decode mk) (randomBytes N (draws r0) 32)
             (ascii_bytes (''vault-key-v'' @ show_nat 1)) 32 = Inr k"
      and cur: "currentKey km = Some (Suc (length (heap r0)))" "currentVersion km = 1"
      and heap: "heap rt = heap r0 @ [Buffer (hex_decode mk), ArrayBuffer k]"
    by auto
  from assms(1) k have "length k = 32"
    unfolding node_contract_def by blast
  with heap have "length (bytes_at rt (Suc (length (heap r0)))) = 32"
    by (simp add: bytes_at_def deref_def nth_append)
  from store_then_retrieve [OF assms(1,2) _ this, of v] cur v show ?thesis
    by auto
qed

lemma toy_contract: "node_contract toy"
proof -
  have x: "map ((\<lambda>x. x XOR a) \<circ> (\<lambda>x. x XOR a)) p = p" for a :: "8 word" and p
    by (induction p) (simp_all add: xor.assoc)
  have z: "word_of_nat (unat a mod 256) = a" for a :: "8 word"
  proof -
    have "unat a < 2 ^ LENGTH(8)" by (rule unsigned_less)
    then show ?thesis by simp
  qed
  have y: "ascii_bytes (map (\<lambda>w. char_of (unat w)) b) = b" for b
    by (induction b) (simp_all add: ascii_bytes_def z)
  show ?thesis
    by (simp add: node_contract_def toy_def x y)
qed

lemma toy_json: "json_serializable toy d"
proof -
  have "map (\<lambda>w. char_of (unat w)) (ascii_bytes s) = s" for s
    by (induction s) (simp_all add: ascii_bytes_def unat_of_nat)
  then show ?thesis
    by (simp add: json_serializable_def toy_def)
qed

theorem store_retrieve_roundtrip_witness:
  "node_contract toy \<and> json_serializable toy ''hello'' \<and>
   VaultService_new toy (Some key64) (Some 5000) toy_rt0 = (Inr toy_vault1, toy_rt1) \<and>
   fst (store toy ''hello'' (toy_vault1, toy_rt1)) = Inr (''id-2'', 1, 1000) \<and>
   retrieve toy ''id-2'' (snd (store toy ''hello'' (toy_vault1, toy_rt1))) = Inr (''hello'', 1, 1000)"
proof -
  note new = toy_vault_new
  have r: "retrieve toy ''id-2'' (snd (store toy ''hello'' (toy_vault1, toy_rt1))) =
      Inr (''hello'', 1, 1000)"
    by code_simp
  from store_retrieve_roundtrip [OF toy_contract toy_json new, of "''hello''"]
    toy_contract toy_json new toy_store_hello r
  show ?thesis by simp
qed

section \<open>A rotation whose key derivation throws\<close>

lemma toy_kdf_fails_new:
  "KeyManager_new toy_kdf_fails (Some key64) (Some 5000) toy_rt0 = (Inr toy_km1, toy_rt1)"
  by code_simp

lemma toy_kdf_fails_rotate:
  "rotateKey toy_kdf_fails (toy_km1, toy_rt1) =
     (Inl ''hkdf failed'',
      toy_km1\<lparr>previousKey := Some 1, previousVersion := Some 1, currentVersion := 2\<rparr>,
      toy_rt1\<lparr>draws := 2\<rparr>)"
  by code_simp

text \<open>
  C6, as stated, fails: on a manager constructed at version 1, a \<open>rotateKey\<close> whose
  \<open>hkdfSync\<close> throws leaves the current version at 2 and the previous slot filled.
\<close>

theorem failed_rotation_counterexample:
  "KeyManager_new toy_kdf_fails (Some key64) (Some 5000) toy_rt0 = (Inr toy_km1, toy_rt1) \<and>
   fst (rotateKey toy_kdf_fails (toy_km1, toy_rt1)) = Inl ''hkdf failed'' \<and>
   fst (snd (rotateKey toy_kdf_fails (toy_km1, toy_rt1))) \<noteq> toy_km1 \<and>
   currentVersion toy_km1 = 1 \<and>
   currentVersion (fst (snd (rotateKey toy_kdf_fails (toy_km1, toy_rt1)))) = 2 \<and>
   previousVersion toy_km1 = None \<and>
   previousVersion (fst (snd (rotateKey toy_kdf_fails (toy_km1, toy_rt1)))) = Some 1 \<and>
   previousKey toy_km1 = None \<and>
   previousKey (fst (snd (rotateKey toy_kdf_fails (toy_km1, toy_rt1)))) = Some 1"
  unfolding toy_kdf_fails_rotate using toy_kdf_fails_new
  by (simp add: toy_km1_def)

text \<open>
  C6, amended. When the key derivation throws inside \<open>rotateKey\<close>, the exception leaves
  the manager half-way: the current key, the last-rotation time and every key buffer are
  unchanged, while the previous slot already holds the current key with its version and
  the current version is already one higher. The key that was current is still returned,
  for its own version and for the new one.
\<close>

theorem failed_rotation_state:
  assumes "rotateKey N (km, rt) = (Inl e, km', rt')"
  shows "currentKey km' = currentKey km \<and> lastRotationTime km' = lastRotationTime km \<and>
         heap rt' = heap rt \<and>
         previousKey km' = currentKey km \<and> previousVersion km' = Some (currentVersion km) \<and>
         currentVersion km' = currentVersion km + 1 \<and>
         getKeyByVersion km' (currentVersion km) = currentKey km \<and>
         getKeyByVersion km' (currentVersion km + 1) = currentKey km"
  using rotateKey_failure [OF assms]
  by (auto simp: getKeyByVersion_def)

theorem failed_rotation_state_witness:
  "rotateKey toy_kdf_fails (toy_km1, toy_rt1) =
     (Inl ''hkdf failed'',
      toy_km1\<lparr>previousKey := Some 1, previousVersion := Some 1, currentVersion := 2\<rparr>,
      toy_rt1\<lparr>draws := 2\<rparr>) \<and>
   getKeyByVersion
     (toy_km1\<lparr>previousKey := Some 1, previousVersion := Some 1, currentVersion := 2\<rparr>) 1 = Some 1 \<and>
   getKeyByVersion
     (toy_km1\<lparr>previousKey := Some 1, previousVersion := Some 1, currentVersion := 2\<rparr>) 2 = Some 1"
  using failed_rotation_state [OF toy_kdf_fails_rotate] toy_kdf_fails_rotate
  by (simp add: toy_km1_def getKeyByVersion_def)

section \<open>What a rotation does to the key it drops\<close>

lemma toy_key_bytes:
  "bytes_at toy_rt2 1 = key_v 1" "bytes_at toy_rt3 1 = key_v 1" "key_v 1 \<noteq> replicate 32 0"
  by code_simp+

text \<open>
  C7, as stated, fails: the second rotation drops the version-1 key from the previous slot,
  and the bytes of that key are in memory afterwards as they were before.
\<close>

theorem rotation_zeroes_counterexample:
  "previousKey toy_km2 = Some 1 \<and> bytes_at toy_rt2 1 = key_v 1 \<and>
   rotateKey toy (toy_km2, toy_rt2) = (Inr (), toy_km3, toy_rt3) \<and>
   previousKey toy_km3 = Some 2 \<and>
   bytes_at toy_rt3 1 = key_v 1 \<and> key_v 1 \<noteq> replicate 32 0"
  using toy_rotate2 toy_key_bytes
  by (simp add: toy_km2_def toy_km3_def toy_km1_def)

text \<open>
  C7, amended. A \<open>rotateKey\<close> call overwrites the previous slot with the current key, so
  the manager afterwards refers to that key and, when the derivation succeeded, to the new
  one, and to nothing else. It writes to no existing buffer: the bytes of the key it drops
  are not zeroed.
\<close>

theorem rotation_drops_reference:
  assumes "rotateKey N (km, rt) = (res, km', rt')"
  shows "previousKey km' = currentKey km \<and>
         set_option (currentKey km') \<union> set_option (previousKey km') \<subseteq>
           insert (length (heap rt)) (set_option (currentKey km)) \<and>
         (\<forall>r < length (heap rt). deref rt' r = deref rt r \<and> bytes_at rt' r = bytes_at rt r)"
proof (cases res)
  case (Inl e)
  with assms rotateKey_failure [of N km rt e km' rt'] show ?thesis
    by (auto simp: deref_def bytes_at_def)
next
  case (Inr u)
  with assms have r: "rotateKey N (km, rt) = (Inr u, km', rt')" by simp
  from rotateKey_success [OF r] rotateKey_versions(3) [OF assms] show ?thesis
    by (auto simp: deref_def bytes_at_def nth_append)
qed

theorem rotation_drops_reference_witness:
  "rotateKey toy (toy_km2, toy_rt2) = (Inr (), toy_km3, toy_rt3) \<and>
   previousKey toy_km2 = Some 1 \<and> currentKey toy_km2 = Some 2 \<and>
   previousKey toy_km3 = Some 2 \<and> currentKey toy_km3 = Some 3 \<and>
   bytes_at toy_rt3 1 = bytes_at toy_rt2 1 \<and> bytes_at toy_rt3 1 = key_v 1"
proof -
  have h: "heap toy_rt2 = [Buffer secret32, ArrayBuffer (key_v 1), ArrayBuffer (key_v 2)]"
    by (simp add: toy_rt2_def toy_rt1_def)
  from rotation_drops_reference [OF toy_rotate2] h have "bytes_at toy_rt3 1 = bytes_at toy_rt2 1"
    by simp
  with toy_rotate2 toy_key_bytes show ?thesis
    by (simp add: toy_km2_def toy_km3_def toy_km1_def)
qed

section \<open>What destroy zeroes\<close>

lemma fill0_deref:
  "deref (fill0 r rt) q =
     (if q = r then map_option (\<lambda>obj. case obj of Buffer bs \<Rightarrow> Buffer (replicate (length bs) 0)
                                        | ArrayBuffer bs \<Rightarrow> ArrayBuffer (replicate (length bs) 0))
                     (deref rt r)
      else deref rt q)"
  by (auto simp: fill0_def deref_def split: option.splits jsobj.splits)

lemma fill0_if_buffer_keeps_ArrayBuffer:
  assumes "deref rt q = Some (ArrayBuffer k)"
  shows "deref (fill0_if_buffer x rt) q = Some (ArrayBuffer k)"
proof (cases x)
  case None
  with assms show ?thesis by (simp add: fill0_if_buffer_def)
next
  case (Some r)
  show ?thesis
  proof (cases "deref rt r")
    case None
    with Some assms show ?thesis by (simp add: fill0_if_buffer_def)
  next
    case (Some obj)
    with \<open>x = Some r\<close> assms show ?thesis
      by (cases obj) (auto simp: fill0_if_buffer_def fill0_deref)
  qed
qed

lemma clearInterval_deref [simp]: "deref (clearInterval t rt) q = deref rt q"
  by (simp add: clearInterval_def deref_def)

lemma destroy_km_keeps_ArrayBuffer:
  assumes "deref rt q = Some (ArrayBuffer k)"
  shows "deref (snd (destroy_km (km, rt))) q = Some (ArrayBuffer k)"
  using assms
  by (auto simp: destroy_km_def Let_def fill0_if_buffer_keeps_ArrayBuffer split: option.splits)

text \<open>Every key the manager holds came from \<open>hkdfSync\<close> and is an \<open>ArrayBuffer\<close>.\<close>

lemma reachable_keys_ArrayBuffer:
  assumes "reachable N s"
  shows "\<forall>r. currentKey (keyManager (fst s)) = Some r \<or> previousKey (keyManager (fst s)) = Some r
           \<longrightarrow> (\<exists>k. deref (snd s) r = Some (ArrayBuffer k))"
  using assms
proof (induction rule: reachable.induct)
  case (constructed masterKey interval r0 v rt)
  then obtain km where km: "KeyManager_new N masterKey interval r0 = (Inr km, rt)"
    and v: "keyManager v = km"
    by (auto simp: VaultService_new_def split: prod.splits sum.splits)
  from KeyManager_new_success [OF km] v show ?case
    by (auto simp: deref_def nth_append)
next
  case (rotated s)
  obtain v rt where s: "s = (v, rt)" by (cases s)
  obtain res v' rt' where f: "forceRotation N (v, rt) = (res, v', rt')"
    by (cases "forceRotation N (v, rt)")
  from forceRotation_result [OF f]
  have r: "rotateKey N (keyManager v, rt) = (res, keyManager v', rt')" by simp
  from rotated.IH s have IH: "\<And>q. currentKey (keyManager v) = Some q \<Longrightarrow>
      \<exists>k. deref rt q = Some (ArrayBuffer k)"
    by simp
  have old: "deref rt q = Some obj \<Longrightarrow> deref rt' q = Some obj" for q obj
  proof (cases res)
    case (Inl e)
    assume "deref rt q = Some obj"
    with Inl r rotateKey_failure(2) [of N "keyManager v" rt e "keyManager v'" rt']
    show ?thesis by (auto simp: deref_def split: if_splits)
  next
    case (Inr u)
    assume "deref rt q = Some obj"
    with Inr r rotateKey_success(3) [of N "keyManager v" rt u "keyManager v'" rt']
    show ?thesis by (auto simp: deref_def nth_append split: if_splits)
  qed
  have prev: "previousKey (keyManager v') = currentKey (keyManager v)"
    by (rule rotateKey_versions(3) [OF r])
  have cur: "currentKey (keyManager v') = Some q \<Longrightarrow> \<exists>k. deref rt' q = Some (ArrayBuffer k)" for q
  proof (cases res)
    case (Inl e)
    assume q: "currentKey (keyManager v') = Some q"
    from Inl r rotateKey_failure(1) [of N "keyManager v" rt e "keyManager v'" rt']
    have "keyManager v' = (keyManager v)\<lparr>previousKey := currentKey (keyManager v),
        previousVersion := Some (currentVersion (keyManager v)),
        currentVersion := currentVersion (keyManager v) + 1\<rparr>"
      by simp
    then have "currentKey (keyManager v') = currentKey (keyManager v)"
      by (simp (no_asm_simp))
    with q IH [of q] old show ?thesis by auto
  next
    case (Inr u)
    assume q: "currentKey (keyManager v') = Some q"
    with Inr r rotateKey_success(1,3) [of N "keyManager v" rt u "keyManager v'" rt']
    show ?thesis by (auto simp: deref_def)
  qed
  from cur prev IH old s f show ?case
    by auto
next
  case (stored s d)
  obtain v rt where s: "s = (v, rt)" by (cases s)
  have "heap (snd (snd (store N d (v, rt)))) = heap rt"
    by (auto simp: store_def Let_def encrypt_def draw_bytes_def DataStore_store_def draw_uuid_def
          split: prod.splits sum.splits option.splits)
  then have "deref (snd (snd (store N d (v, rt)))) q = deref rt q" for q
    by (simp add: deref_def)
  with stored.IH s store_keyManager [of N d s] show ?case
    by simp
next
  case (destroyed s)
  obtain v rt where s: "s = (v, rt)" by (cases s)
  obtain km' rt' where d: "destroy_km (keyManager v, rt) = (km', rt')"
    by (cases "destroy_km (keyManager v, rt)")
  from destroy_km_keeps_ArrayBuffer [of rt _ _ "keyManager v"] d
  have "deref rt q = Some (ArrayBuffer k) \<Longrightarrow> deref rt' q = Some (ArrayBuffer k)" for q k
    by simp
  with destroyed.IH s destroy_km_fields [OF d] d show ?case
    by (auto simp: destroy_def)
next
  case (tick v rt t)
  have "deref (rt\<lparr>clock := t\<rparr>) q = deref rt q" for q
    by (simp add: deref_def)
  with tick.IH show ?case by simp
qed

lemma destroy_never_zeroes_keys:
  assumes "reachable N (v, rt)"
    and "currentKey (keyManager v) = Some r \<or> previousKey (keyManager v) = Some r"
  shows "bytes_at (snd (destroy (v, rt))) r = bytes_at rt r"
proof -
  from reachable_keys_ArrayBuffer [OF assms(1)] assms(2)
  obtain k where k: "deref rt r = Some (ArrayBuffer k)" by auto
  obtain km' rt' where d: "destroy_km (keyManager v, rt) = (km', rt')"
    by (cases "destroy_km (keyManager v, rt)")
  from destroy_km_keeps_ArrayBuffer [OF k, of "keyManager v"] d k show ?thesis
    by (simp add: destroy_def bytes_at_def)
qed

lemma fill0_if_buffer_timers [simp]: "timers (fill0_if_buffer x rt) = timers rt"
  by (auto simp: fill0_if_buffer_def fill0_def split: option.splits jsobj.splits)

lemma destroy_km_cancels_timer:
  "rotationTimer (fst (destroy_km (km, rt))) = None \<and>
   (\<forall>t. rotationTimer km = Some t \<longrightarrow> t \<notin> set (timers (snd (destroy_km (km, rt)))))"
  by (auto simp: destroy_km_def Let_def clearInterval_def split: option.splits)

lemma destroy_km_zeroes_Buffer:
  assumes "deref rt (masterKeyBuffer km) = Some (Buffer bs)"
  shows "bytes_at (snd (destroy_km (km, rt))) (masterKeyBuffer km) = replicate (length bs) 0"
proof -
  have keep: "\<exists>bs'. deref (fill0_if_buffer x rt') q = Some (Buffer bs') \<and> length bs' = length bs"
    if "\<exists>bs'. deref rt' q = Some (Buffer bs') \<and> length bs' = length bs" for x rt' q
    using that
    by (cases x) (auto simp: fill0_if_buffer_def fill0_deref split: option.splits jsobj.splits)
  have last: "bytes_at (fill0_if_buffer (Some q) rt') q = replicate (length bs) 0"
    if "\<exists>bs'. deref rt' q = Some (Buffer bs') \<and> length bs' = length bs" for rt' q
    using that by (auto simp: fill0_if_buffer_def fill0_deref bytes_at_def)
  from assms show ?thesis
    by (auto simp: destroy_km_def Let_def split: option.splits intro!: last keep)
qed

text \<open>
  C8 on the code: after \<open>destroy()\<close> on a manager that has rotated once, the timer is
  cancelled and the master key buffer is zero-filled, but the current and the previous key
  still hold their bytes: they are \<open>ArrayBuffer\<close>s, and \<open>destroy\<close> zeroes a field only
  when \<open>Buffer.isBuffer\<close> holds of it.
\<close>

theorem destroy_leaves_derived_keys:
  "destroy_km (toy_km2, toy_rt2) =
     (toy_km2\<lparr>rotationTimer := None\<rparr>,
      toy_rt2\<lparr>heap := [Buffer (replicate 32 0), ArrayBuffer (key_v 1), ArrayBuffer (key_v 2)],
              timers := []\<rparr>) \<and>
   currentKey toy_km2 = Some 2 \<and> previousKey toy_km2 = Some 1 \<and>
   key_v 2 \<noteq> replicate 32 0 \<and> key_v 1 \<noteq> replicate 32 0"
  by code_simp

section \<open>What the constructor accepts\<close>

lemma hex_decode_length:
  "\<forall>c \<in> set s. hex_val c \<noteq> None \<Longrightarrow> length (hex_decode s) = length s div 2"
  by (induction s rule: hex_decode.induct) (auto split: option.splits)

lemma KeyManager_new_hex_secret:
  assumes "KeyManager_new N (Some mk) interval rt = (Inr km, rt')"
    and "\<forall>c \<in> set mk. hex_val c \<noteq> None"
  shows "length (bytes_at rt' (masterKeyBuffer km)) = 32"
proof -
  from KeyManager_new_success [OF assms(1)] hex_decode_length [OF assms(2)] show ?thesis
    by (auto simp: bytes_at_def deref_def nth_append)
qed

lemma hex_decode_non_hex: "hex_val a = None \<Longrightarrow> hex_decode (a # b # cs) = []"
  by simp

text \<open>A master key of 64 characters, whatever they are, passes the constructor's check:
  construction can then only fail where \<open>hkdfSync\<close> throws.\<close>

lemma KeyManager_new_failure_is_kdf:
  assumes "length mk = 64"
    and "KeyManager_new N (Some mk) interval rt = (Inl e, rt')"
  shows "hkdfSync N (hex_decode mk) (randomBytes N (draws rt) 32)
           (ascii_bytes (''vault-key-v'' @ show_nat 1)) 32 = Inl e"
proof -
  define r1 where "r1 = rt\<lparr>heap := heap rt @ [Buffer (hex_decode mk)]\<rparr>"
  define km0 where "km0 = \<lparr>masterKeyBuffer = length (heap rt),
                 rotationIntervalMs = (case interval of None \<Rightarrow> 60 * 60 * 1000 | Some i \<Rightarrow> i),
                 currentVersion = 1, previousVersion = None,
                 currentKey = None, previousKey = None,
                 rotationTimer = None, lastRotationTime = None\<rparr>"
  have m: "bytes_at (r1\<lparr>draws := Suc (draws rt)\<rparr>) (masterKeyBuffer km0) = hex_decode mk"
    by (simp add: r1_def km0_def bytes_at_def deref_def)
  have v: "currentVersion km0 = 1" "draws r1 = draws rt"
    by (simp_all add: km0_def r1_def)
  from assms(1) have ne: "mk \<noteq> []" by auto
  have unfold: "KeyManager_new N (Some mk) interval rt =
      (case generateInitialKey N (km0, r1) of
         (Inl e, k1, r2) \<Rightarrow> (Inl e, r2)
       | (Inr u, k1, r2) \<Rightarrow> (let (k2, r3) = startRotation (k1, r2) in (Inr k2, r3)))"
    using assms(1) ne by (simp add: KeyManager_new_def alloc_def r1_def km0_def)
  show ?thesis
  proof (cases "hkdfSync N (hex_decode mk) (randomBytes N (draws rt) 32)
           (ascii_bytes (''vault-key-v'' @ show_nat 1)) 32")
    case (Inl e')
    with assms(2) unfold m v show ?thesis
      by (simp add: generateInitialKey_def derive_key_def draw_bytes_def)
  next
    case (Inr k)
    with assms(2) unfold m v show ?thesis
      by (simp add: generateInitialKey_def derive_key_def draw_bytes_def alloc_def
            startRotation_def Let_def)
  qed
qed

text \<open>
  C9 on the code: a master key of 64 characters that are not hexadecimal digits passes the
  length check. The constructor succeeds with a root secret of zero bytes.
\<close>

theorem non_hex_master_key_accepted:
  "KeyManager_new toy (Some (replicate 64 CHR ''z'')) (Some 5000) toy_rt0 =
     (Inr toy_km1, toy_rt1\<lparr>heap := [Buffer [], ArrayBuffer (key_v 1)]\<rparr>) \<and>
   length (replicate 64 CHR ''z'') = 64 \<and> hex_val CHR ''z'' = None \<and>
   hex_decode (replicate 64 CHR ''z'') = []"
  by code_simp

section \<open>Tampering\<close>

lemma rotateKey_keeps_cells:
  assumes "rotateKey N (km, rt) = (res, km', rt')" and "deref rt q = Some obj"
  shows "deref rt' q = Some obj"
proof (cases res)
  case (Inl e)
  with assms rotateKey_failure(2) [of N km rt e km' rt'] show ?thesis
    by (auto simp: deref_def split: if_splits)
next
  case (Inr u)
  with assms rotateKey_success(3) [of N km rt u km' rt'] show ?thesis
    by (auto simp: deref_def nth_append split: if_splits)
qed

lemma store_failure:
  assumes "store N d (v, rt) = (Inl e, v', rt')"
  shows "v' = v \<and> heap rt' = heap rt"
  using assms
  by (auto simp: store_def getCurrentKey_def encrypt_def draw_bytes_def Let_def
        DataStore_store_def draw_uuid_def
      split: sum.splits option.splits prod.splits)

lemma bytes_at_heap: "heap rt' = heap rt \<Longrightarrow> bytes_at rt' r = bytes_at rt r"
  by (simp add: bytes_at_def deref_def)

lemma reachable_records_sealed:
  assumes "reachable N s"
  shows "records_sealed N s"
  using assms
proof (induction rule: reachable.induct)
  case (constructed masterKey interval r0 v rt)
  then have "dataStore v = Map.empty"
    by (auto simp: VaultService_new_def split: prod.splits sum.splits)
  then show ?case by (simp add: records_sealed_def)
next
  case (rotated s)
  obtain v rt where s: "s = (v, rt)" by (cases s)
  obtain res v' rt' where f: "forceRotation N (v, rt) = (res, v', rt')"
    by (cases "forceRotation N (v, rt)")
  from forceRotation_result [OF f]
  have r: "rotateKey N (keyManager v, rt) = (res, keyManager v', rt')"
    and ds: "dataStore v' = dataStore v" by simp_all
  note vers = rotateKey_versions(1,2,3) [OF r]
  have "keyVersion rec \<le> currentVersion (keyManager v') \<and>
        (\<forall>q. getKeyByVersion (keyManager v') (keyVersion rec) = Some q \<longrightarrow>
           (\<exists>nonce p c t.
              gcm_encrypt N (bytes_at rt' q) nonce p = Inr (c, t) \<and>
              rec_ciphertext rec = base64_encode N c \<and>
              rec_iv rec = base64_encode N nonce \<and>
              rec_tag rec = base64_encode N t))"
    if rec: "dataStore v' i = Some rec" for i rec
  proof (intro conjI allI impI)
    from rec ds rotated.IH s
    have le: "keyVersion rec \<le> currentVersion (keyManager v)"
      by (simp add: records_sealed_def)
    with vers show "keyVersion rec \<le> currentVersion (keyManager v')" by simp
    fix q assume q: "getKeyByVersion (keyManager v') (keyVersion rec) = Some q"
    with le vers have ver: "keyVersion rec = currentVersion (keyManager v)"
      and cur: "currentKey (keyManager v) = Some q"
      by (auto simp: getKeyByVersion_def split: if_splits)
    then have "getKeyByVersion (keyManager v) (keyVersion rec) = Some q"
      by (simp add: getKeyByVersion_def)
    with rec ds rotated.IH s obtain nonce p c t
      where enc: "gcm_encrypt N (bytes_at rt q) nonce p = Inr (c, t)"
        and fields: "rec_ciphertext rec = base64_encode N c" "rec_iv rec = base64_encode N nonce"
          "rec_tag rec = base64_encode N t"
      unfolding records_sealed_def by fastforce
    from reachable_keys_ArrayBuffer [OF rotated.hyps] s cur
    obtain k where k: "deref rt q = Some (ArrayBuffer k)" by auto
    from rotateKey_keeps_cells [OF r k] k have "bytes_at rt' q = bytes_at rt q"
      by (simp add: bytes_at_def)
    with enc fields
    show "\<exists>nonce p c t.
              gcm_encrypt N (bytes_at rt' q) nonce p = Inr (c, t) \<and>
              rec_ciphertext rec = base64_encode N c \<and>
              rec_iv rec = base64_encode N nonce \<and>
              rec_tag rec = base64_encode N t"
      by auto
  qed
  with s f show ?case
    by (simp add: records_sealed_def)
next
  case (stored s d)
  obtain v rt where s: "s = (v, rt)" by (cases s)
  obtain res v' rt' where st: "store N d (v, rt) = (res, v', rt')"
    by (cases "store N d (v, rt)")
  from stored.IH s have IH: "records_sealed N (v, rt)" by simp
  show ?case
  proof (cases res)
    case (Inl e)
    with st store_failure [of N d v rt e v' rt'] have "v' = v" "heap rt' = heap rt" by simp_all
    with IH bytes_at_heap [of rt' rt] s st show ?thesis
      by (simp add: records_sealed_def)
  next
    case (Inr x)
    obtain i ver ts where x: "x = (i, ver, ts)" by (cases x)
    with Inr st have st': "store N d (v, rt) = (Inr (i, ver, ts), v', rt')" by simp
    from store_success [OF st'] obtain r sj c t
      where key: "currentKey (keyManager v) = Some r"
        and ver: "ver = currentVersion (keyManager v)"
        and enc: "gcm_encrypt N (bytes_at rt r) (randomBytes N (draws rt) 12) (utf8_encode N sj) = Inr (c, t)"
        and v': "v' = v\<lparr>dataStore := (dataStore v)(i \<mapsto>
                   \<lparr>rec_id = i, keyVersion = ver,
                    rec_ciphertext = base64_encode N c,
                    rec_iv = base64_encode N (randomBytes N (draws rt) 12),
                    rec_tag = base64_encode N t,
                    timestamp = clock rt, metadata = []\<rparr>)\<rparr>"
        and rt': "rt' = rt\<lparr>draws := Suc (Suc (draws rt))\<rparr>"
      by blast
    have b: "bytes_at rt' q = bytes_at rt q" for q
      by (simp add: rt')
    have new: "getKeyByVersion (keyManager v) ver = Some q \<Longrightarrow> q = r" for q
      using key ver by (simp add: getKeyByVersion_def)
    define new_rec where "new_rec = \<lparr>rec_id = i, keyVersion = ver,
                    rec_ciphertext = base64_encode N c,
                    rec_iv = base64_encode N (randomBytes N (draws rt) 12),
                    rec_tag = base64_encode N t,
                    timestamp = clock rt, metadata = []\<rparr>"
    have km': "keyManager v' = keyManager v" and ds': "dataStore v' = (dataStore v)(i \<mapsto> new_rec)"
      by (simp_all add: v' new_rec_def)
    have sealed_new: "keyVersion new_rec \<le> currentVersion (keyManager v) \<and>
        (\<forall>q. getKeyByVersion (keyManager v) (keyVersion new_rec) = Some q \<longrightarrow>
           (\<exists>nonce p ca ta.
              gcm_encrypt N (bytes_at rt q) nonce p = Inr (ca, ta) \<and>
              rec_ciphertext new_rec = base64_encode N ca \<and>
              rec_iv new_rec = base64_encode N nonce \<and>
              rec_tag new_rec = base64_encode N ta))"
    proof (intro conjI allI impI)
      show "keyVersion new_rec \<le> currentVersion (keyManager v)"
        by (simp add: new_rec_def ver)
      fix q assume "getKeyByVersion (keyManager v) (keyVersion new_rec) = Some q"
      with new have "q = r" by (simp add: new_rec_def)
      with enc show "\<exists>nonce p ca ta.
              gcm_encrypt N (bytes_at rt q) nonce p = Inr (ca, ta) \<and>
              rec_ciphertext new_rec = base64_encode N ca \<and>
              rec_iv new_rec = base64_encode N nonce \<and>
              rec_tag new_rec = base64_encode N ta"
        unfolding new_rec_def by fastforce
    qed
    have "records_sealed N (v', rt')"
      unfolding records_sealed_def
    proof (intro allI impI)
      fix i' rec assume "dataStore (fst (v', rt')) i' = Some rec"
      with ds' have "rec = new_rec \<or> dataStore v i' = Some rec"
        by (auto split: if_splits)
      with sealed_new IH
      show "keyVersion rec \<le> currentVersion (keyManager (fst (v', rt'))) \<and>
        (\<forall>r. getKeyByVersion (keyManager (fst (v', rt'))) (keyVersion rec) = Some r \<longrightarrow>
           (\<exists>nonce p c t.
              gcm_encrypt N (bytes_at (snd (v', rt')) r) nonce p = Inr (c, t) \<and>
              rec_ciphertext rec = base64_encode N c \<and>
              rec_iv rec = base64_encode N nonce \<and>
              rec_tag rec = base64_encode N t))"
        unfolding records_sealed_def by (auto simp: km' b)
    qed
    with s st show ?thesis by simp
  qed
next
  case (destroyed s)
  obtain v rt where s: "s = (v, rt)" by (cases s)
  have "dataStore (fst (destroy (v, rt))) = Map.empty"
    by (simp add: destroy_def DataStore_clear_def split: prod.splits)
  with s show ?case by (simp add: records_sealed_def)
next
  case (tick v rt t)
  have "bytes_at (rt\<lparr>clock := t\<rparr>) q = bytes_at rt q" for q
    by (simp add: bytes_at_def deref_def)
  with tick.IH show ?case by (simp add: records_sealed_def)
qed

lemma retrieve_tampered_record:
  assumes b64: "\<And>x. base64_decode N (base64_encode N x) = x"
    and auth: "gcm_authenticates N"
    and key: "getKeyByVersion (keyManager v) (keyVersion rec) = Some r"
    and sup: "isVersionSupported (keyManager v) (keyVersion rec)"
    and enc: "gcm_encrypt N (bytes_at rt r) nonce p = Inr (c, t)"
    and fields: "rec_ciphertext rec = base64_encode N c" "rec_iv rec = base64_encode N nonce"
      "rec_tag rec = base64_encode N t"
    and pos: "j < length (field_of f (record_data N rec))" "b < 8"
  shows "retrieve N i (v\<lparr>dataStore := (dataStore v)(i \<mapsto> tamper_record N f j b rec)\<rparr>, rt) =
           Inl err_authentication"
proof -
  define e where "e = \<lparr>ciphertext = c, iv = nonce, tag = t\<rparr>"
  have data: "record_data N rec = e"
    by (simp add: fields record_data_def deserialize_def b64 e_def)
  define e' where "e' = tamper f j b e"
  have tr: "tamper_record N f j b rec =
      rec\<lparr>rec_ciphertext := base64_encode N (ciphertext e'),
          rec_iv := base64_encode N (iv e'), rec_tag := base64_encode N (tag e')\<rparr>"
    by (simp add: tamper_record_def data Let_def serialize_def e'_def)
  have tampered: "record_data N (tamper_record N f j b rec) = e'"
    unfolding tr by (simp add: record_data_def deserialize_def b64)
  have kv: "keyVersion (tamper_record N f j b rec) = keyVersion rec"
    unfolding tr by simp
  from pos(1) data
  have pos': "j < length (field_of f \<lparr>ciphertext = c, iv = nonce, tag = t\<rparr>)"
    by (simp add: e_def)
  from auth enc pos' pos(2) obtain m
    where m: "gcm_decrypt N (bytes_at rt r) (iv e') (ciphertext e') (tag e') = Inl m"
      and inc: "str_includes m node_auth_message"
    unfolding gcm_authenticates_def e'_def e_def by blast
  have "decrypt N rt (ciphertext e') (iv e') (tag e') r = Inl err_authentication"
    using m inc by (simp add: decrypt_def decrypt_catch_def)
  then show ?thesis
    using key sup kv tampered
    by (simp add: retrieve_def DataStore_retrieve_def Let_def record_data_def)
qed

lemma toy_rotated_reachable: "reachable toy (fst toy_rotated, snd toy_rotated)"
proof -
  have "reachable toy toy_stored"
    unfolding toy_stored_def by (rule reachable.stored [OF toy_reachable1])
  then have "reachable toy toy_rotated"
    unfolding toy_rotated_def by (rule reachable.rotated)
  then show ?thesis by simp
qed

lemma toy_rotated_record:
  "dataStore (fst toy_rotated) ''id-2'' = Some toy_record"
  "isVersionSupported (keyManager (fst toy_rotated)) (keyVersion toy_record)"
  "currentVersion (keyManager (fst toy_rotated)) = 2"
  by code_simp+

lemma toy_expired_record:
  "dataStore (fst toy_expired) ''id-2'' = Some toy_record"
  "\<not> isVersionSupported (keyManager (fst toy_expired)) (keyVersion toy_record)"
  by code_simp+

lemma flip_bit_changes:
  fixes w :: "8 word"
  assumes "b < 8"
  shows "flip_bit b w \<noteq> w"
proof
  assume "flip_bit b w = w"
  then have "bit (flip_bit b w) b = bit w b" by simp
  with assms show False
    by (simp add: bit_flip_bit_iff)
qed

lemma flip_at_changes:
  assumes "j < length bs" and "b < 8"
  shows "flip_at j b bs \<noteq> bs" and "length (flip_at j b bs) = length bs"
proof -
  from assms have "flip_at j b bs ! j = flip_bit b (bs ! j)"
    by (simp add: flip_at_def)
  with flip_bit_changes [OF assms(2), of "bs ! j"] show "flip_at j b bs \<noteq> bs"
    by auto
  show "length (flip_at j b bs) = length bs"
    by (simp add: flip_at_def)
qed

lemma toy_auth_message:
  "str_includes ''Unsupported state or unable to authenticate data'' node_auth_message"
  by code_simp

lemma toy_authenticates: "gcm_authenticates toy"
  unfolding gcm_authenticates_def
proof (intro allI impI, elim conjE)
  fix k nonce p c t :: bytes and f :: field and i b :: nat
  assume enc: "gcm_encrypt toy k nonce p = Inr (c, t)"
    and i: "i < length (field_of f \<lparr>ciphertext = c, iv = nonce, tag = t\<rparr>)" and b: "b < 8"
  from enc have k: "length k = 32" and t: "t = nonce @ c"
    by (auto simp: toy_def split: if_splits)
  define e' where "e' = tamper f i b \<lparr>ciphertext = c, iv = nonce, tag = t\<rparr>"
  have "tag e' \<noteq> iv e' @ ciphertext e'"
  proof (cases f)
    case Ciphertext
    with i flip_at_changes [of i c b] b show ?thesis
      by (simp add: e'_def t)
  next
    case Nonce
    with i flip_at_changes [of i nonce b] b show ?thesis
      by (simp add: e'_def t)
  next
    case Tag
    with i flip_at_changes [of i t b] b show ?thesis
      by (simp add: e'_def t)
  qed
  with k have "gcm_decrypt toy k (iv e') (ciphertext e') (tag e') =
      Inl ''Unsupported state or unable to authenticate data''"
    by (simp add: toy_def)
  with toy_auth_message
  show "\<exists>m. gcm_decrypt toy k
                (iv (tamper f i b \<lparr>ciphertext = c, iv = nonce, tag = t\<rparr>))
                (ciphertext (tamper f i b \<lparr>ciphertext = c, iv = nonce, tag = t\<rparr>))
                (tag (tamper f i b \<lparr>ciphertext = c, iv = nonce, tag = t\<rparr>)) = Inl m \<and>
              str_includes m node_auth_message"
    unfolding e'_def by blast
qed

lemma toy_stored_record: "dataStore (fst toy_stored) ''id-2'' = Some toy_record"
  by code_simp

lemma toy_store_result:
  "store toy ''hello'' (toy_vault1, toy_rt1) = (Inr (''id-2'', 1, 1000), fst toy_stored, snd toy_stored)"
  using toy_store_hello unfolding toy_stored_def by (metis prod.collapse)

lemma toy_record_position:
  "3 < length (field_of Ciphertext (record_data toy toy_record))"
  by code_simp

text \<open>
  C4, as stated, fails: the record that \<open>store\<close> wrote under key version 1 is still in
  the store after two rotations, and with one bit of its ciphertext flipped \<open>retrieve\<close>
  fails with the key-version error, not with the authentication failure, although the
  cipher of this runtime rejects every flipped bit.
\<close>

theorem tamper_after_expiry_counterexample:
  "gcm_authenticates toy \<and>
   fst (store toy ''hello'' (toy_vault1, toy_rt1)) = Inr (''id-2'', 1, 1000) \<and>
   dataStore (fst toy_expired) ''id-2'' = Some toy_record \<and>
   3 < length (field_of Ciphertext (record_data toy toy_record)) \<and>
   retrieve toy ''id-2''
     ((fst toy_expired)\<lparr>dataStore :=
        (dataStore (fst toy_expired))(''id-2'' \<mapsto> tamper_record toy Ciphertext 3 5 toy_record)\<rparr>,
      snd toy_expired) = Inl ''Key version 1 is no longer supported. Current: 3, Previous: 2'' \<and>
   retrieve toy ''id-2''
     ((fst toy_expired)\<lparr>dataStore :=
        (dataStore (fst toy_expired))(''id-2'' \<mapsto> tamper_record toy Ciphertext 3 5 toy_record)\<rparr>,
      snd toy_expired) \<noteq> Inl err_authentication"
proof -
  have r: "retrieve toy ''id-2''
     ((fst toy_expired)\<lparr>dataStore :=
        (dataStore (fst toy_expired))(''id-2'' \<mapsto> tamper_record toy Ciphertext 3 5 toy_record)\<rparr>,
      snd toy_expired) = Inl ''Key version 1 is no longer supported. Current: 3, Previous: 2''"
    by code_simp
  have "''Key version 1 is no longer supported. Current: 3, Previous: 2'' \<noteq> err_authentication"
    by (simp add: err_authentication_def)
  with r toy_authenticates toy_store_hello toy_expired_record(1) toy_record_position
  show ?thesis by simp
qed

text \<open>
  C4, amended. In every reachable state, take any record in the store whose key version
  the manager still supports and flip one bit of its ciphertext, of its nonce or of its
  tag. Where AES-GCM answers a flipped bit with its authentication error, \<open>retrieve\<close> of
  that record fails with \<open>Decryption failed: Invalid key or tampered data\<close>; it does not
  return data.
\<close>

theorem tamper_detected_while_supported:
  assumes "node_contract N" and "gcm_authenticates N"
    and "reachable N (v, rt)"
    and "dataStore v i = Some rec"
    and "isVersionSupported (keyManager v) (keyVersion rec)"
    and "j < length (field_of f (record_data N rec))" and "b < 8"
  shows "retrieve N i (v\<lparr>dataStore := (dataStore v)(i \<mapsto> tamper_record N f j b rec)\<rparr>, rt) =
           Inl err_authentication"
proof -
  from assms(1) have b64: "base64_decode N (base64_encode N x) = x" for x
    by (simp add: node_contract_def)
  from reachable_km_ok [OF assms(3)] have "km_ok (keyManager v)" by simp
  with assms(5) obtain r where key: "getKeyByVersion (keyManager v) (keyVersion rec) = Some r"
    by (auto simp: km_ok_def isVersionSupported_def getKeyByVersion_def)
  from reachable_records_sealed [OF assms(3)] assms(4) key obtain nonce p c t
    where enc: "gcm_encrypt N (bytes_at rt r) nonce p = Inr (c, t)"
      and fields: "rec_ciphertext rec = base64_encode N c" "rec_iv rec = base64_encode N nonce"
        "rec_tag rec = base64_encode N t"
    unfolding records_sealed_def by fastforce
  from retrieve_tampered_record [OF b64 assms(2) key assms(5) enc fields assms(6,7)]
  show ?thesis .
qed

theorem tamper_detected_while_supported_witness:
  "node_contract toy \<and> gcm_authenticates toy \<and>
   reachable toy (fst toy_rotated, snd toy_rotated) \<and>
   dataStore (fst toy_rotated) ''id-2'' = Some toy_record \<and>
   currentVersion (keyManager (fst toy_rotated)) = 2 \<and> keyVersion toy_record = 1 \<and>
   isVersionSupported (keyManager (fst toy_rotated)) (keyVersion toy_record) \<and>
   3 < length (field_of Ciphertext (record_data toy toy_record)) \<and> (5 :: nat) < 8 \<and>
   retrieve toy ''id-2''
     ((fst toy_rotated)\<lparr>dataStore :=
        (dataStore (fst toy_rotated))(''id-2'' \<mapsto> tamper_record toy Ciphertext 3 5 toy_record)\<rparr>,
      snd toy_rotated) = Inl ''Decryption failed: Invalid key or tampered data''"
proof -
  have b: "(5 :: nat) < 8" by simp
  have kv: "keyVersion toy_record = 1" by (simp add: toy_record_def)
  from tamper_detected_while_supported [OF toy_contract toy_authenticates toy_rotated_reachable
      toy_rotated_record(1,2) toy_record_position b]
    toy_contract toy_authenticates toy_rotated_reachable toy_rotated_record toy_record_position kv
  show ?thesis by (simp add: err_authentication_def)
qed

end
